theory Spec2Isabelle
  imports Complex_Main "HOL-Library.Word"
begin

section \<open>Data model of the cursor editor (App.tsx)\<close>

text \<open>
  Frame delays and times are JavaScript numbers, that is binary64 values: they are
  modelled as the real numbers they denote, and every sum, difference and product the
  source computes with them is rounded as binary64 does (section on binary64 arithmetic
  below). Coordinates and angles of the canvas transform are reals. Array lengths, byte
  offsets and the integer fields of the binary formats are integers. Bytes are 8-bit
  words.
\<close>

type_synonym byte = "8 word"

datatype js_error = InvalidANI | RangeError | TypeError

text \<open>An image handle: only its identity and its dimensions are visible to the code.\<close>

record Image =
  img_src :: nat
  img_width :: real
  img_height :: real

record FrameData =
  image :: Image
  delay :: real

record TransformConfig =
  cfg_x :: real
  cfg_y :: real
  cfg_scale :: real
  cfg_rotation :: real
  cfg_opacity :: real

record Layer =
  layer_id :: string
  name :: string
  frames :: "FrameData list"
  config :: TransformConfig
  visible :: bool
  locked :: bool
  isBase :: "bool option"

record Hotspot =
  hot_x :: int
  hot_y :: int

record CursorState =
  layers :: "Layer list"
  hotspot :: Hotspot
  outputSize :: int
  fileName :: string

definition DEFAULT_TRANSFORM :: TransformConfig where
  "DEFAULT_TRANSFORM =
     \<lparr>cfg_x = 0, cfg_y = 0, cfg_scale = 1, cfg_rotation = 0, cfg_opacity = 1\<rparr>"

definition createBaseLayer :: Layer where
  "createBaseLayer =
     \<lparr>layer_id = ''base'', name = ''Base Layer'', frames = [],
      config = DEFAULT_TRANSFORM, visible = True, locked = False, isBase = Some True\<rparr>"

definition DEFAULT_CURSOR_STATE :: CursorState where
  "DEFAULT_CURSOR_STATE =
     \<lparr>layers = [createBaseLayer], hotspot = \<lparr>hot_x = 0, hot_y = 0\<rparr>,
      outputSize = 32, fileName = ''''\<rparr>"

section \<open>Layer stack modifiers\<close>

text \<open>
  The editor state the modifiers touch: the active cursor's state and the selected
  layer id.
\<close>

record Editor =
  activeData :: CursorState
  selectedLayerId :: string

text \<open>\<open>activeLayers[0]?.id || 'base'\<close>: the empty string is falsy.\<close>

definition firstLayerIdOrBase :: "Layer list \<Rightarrow> string" where
  "firstLayerIdOrBase ls =
     (case ls of [] \<Rightarrow> ''base''
      | l # _ \<Rightarrow> (if layer_id l = '''' then ''base'' else layer_id l))"

definition addLayer :: "Layer \<Rightarrow> Editor \<Rightarrow> Editor" where
  "addLayer newLayer ed =
     ed\<lparr>activeData := (activeData ed)\<lparr>layers := layers (activeData ed) @ [newLayer]\<rparr>,
        selectedLayerId := layer_id newLayer\<rparr>"

definition removeLayer :: "string \<Rightarrow> Editor \<Rightarrow> Editor" where
  "removeLayer layerId ed =
     ed\<lparr>activeData := (activeData ed)
           \<lparr>layers := filter (\<lambda>l. layer_id l \<noteq> layerId) (layers (activeData ed))\<rparr>,
        selectedLayerId :=
          (if selectedLayerId ed = layerId
           then firstLayerIdOrBase (layers (activeData ed))
           else selectedLayerId ed)\<rparr>"

text \<open>The role of a layer: \<open>isBase\<close> is an optional flag, absent on overlays.\<close>

definition hasBaseRole :: "Layer \<Rightarrow> bool" where
  "hasBaseRole l = (isBase l = Some True)"

definition initialEditor :: Editor where
  "initialEditor = \<lparr>activeData = DEFAULT_CURSOR_STATE, selectedLayerId = ''base''\<rparr>"

section \<open>Binary64 arithmetic\<close>

text \<open>
  A finite binary64 value is a real number \<open>m * 2 ^ e\<close> with \<open>\<bar>m\<bar> < 2 ^ 53\<close> and
  \<open>- 1074 \<le> e\<close>. The result of \<open>+\<close>, \<open>-\<close>, \<open>*\<close> and \<open>/\<close> is the exact result rounded to
  the nearest such value, a tie going to the even significand. \<open>rne\<close> rounds a real to
  the nearest integer, ties to even; \<open>fl\<close> rounds a real to binary64: the exponent is
  that of the binade of \<open>x\<close>, and not below the subnormal one. The model covers the finite
  range: frame delays are ANI rates below \<open>2 ^ 32\<close> times 1000 / 60, GIF delays or the
  constant 100, so no sum of delays comes near \<open>2 ^ 1024\<close>, from where on the source
  would have \<open>Infinity\<close>.
\<close>

definition rne :: "real \<Rightarrow> int" where
  "rne q =
     (let f = \<lfloor>q\<rfloor>; r = q - of_int f in
      if r < 1 / 2 then f else if 1 / 2 < r then f + 1 else if even f then f else f + 1)"

definition fl :: "real \<Rightarrow> real" where
  "fl x =
     (if x = 0 then 0
      else (let e = max (\<lfloor>log 2 \<bar>x\<bar>\<rfloor> - 52) (- 1074)
            in of_int (rne (x / 2 powi e)) * 2 powi e))"



section \<open>Active frame selection (drawLayer)\<close>

text \<open>
  The remainder operator \<open>%\<close> of JavaScript truncates towards zero: the result has the
  sign of the dividend. The remainder of two binary64 values is a binary64 value, so
  \<open>%\<close> does not round. A zero divisor gives NaN, which is handled where it is used.
\<close>

definition js_trunc :: "real \<Rightarrow> real" where
  "js_trunc v = (if 0 \<le> v then of_int \<lfloor>v\<rfloor> else - of_int \<lfloor>- v\<rfloor>)"

definition js_rem :: "real \<Rightarrow> real \<Rightarrow> real" where
  "js_rem a b = a - b * js_trunc (a / b)"

text \<open>
  The scan \<open>for (const f of layer.frames) { if (t < f.delay) { frame = f; break; }
  t -= f.delay; }\<close>. The subtraction rounds. When no frame matches, \<open>frame\<close> keeps its
  initial value.
\<close>

fun frameScan :: "FrameData \<Rightarrow> real \<Rightarrow> FrameData list \<Rightarrow> FrameData" where
  "frameScan frame t [] = frame"
| "frameScan frame t (f # fs) =
     (if t < delay f then f else frameScan frame (fl (t - delay f)) fs)"

text \<open>\<open>layer.frames.reduce((a, b) => a + b.delay, 0)\<close>: every addition rounds.\<close>

definition totalDelay :: "FrameData list \<Rightarrow> real" where
  "totalDelay fs = foldl (\<lambda>a b. fl (a + delay b)) 0 fs"

text \<open>
  The frame \<open>drawLayer\<close> picks for a non-empty timeline (it returns before on an
  empty one, so \<open>hd\<close> is only taken of a non-empty list). With a total of zero the
  remainder is NaN, every comparison \<open>t < f.delay\<close> is false and the first frame stays.
\<close>

definition activeFrame :: "FrameData list \<Rightarrow> real \<Rightarrow> FrameData" where
  "activeFrame fs time =
     (let frame = hd fs in
      if length fs > 1
      then (let total = totalDelay fs in
            if total = 0 then frame
            else frameScan frame (js_rem time total) fs)
      else frame)"


text \<open>
  A test timeline with the durations 100, 150 and 250 ms; the three frames differ in
  their image handle.
\<close>

definition mkFrame :: "nat \<Rightarrow> real \<Rightarrow> FrameData" where
  "mkFrame n d = \<lparr>image = \<lparr>img_src = n, img_width = 32, img_height = 32\<rparr>, delay = d\<rparr>"




section \<open>The 2D drawing context\<close>

text \<open>
  The canvas context is the browser's. Its model keeps what \<open>drawLayer\<close> can set: the
  current transformation matrix, the global alpha, the save stack, and the list of
  images drawn so far, each with the matrix and alpha in force when it was drawn. The
  matrix \<open>(a, b, c, d, e, f)\<close> maps a point \<open>(u, v)\<close> of the current coordinate system
  to the canvas point \<open>(a u + c v + e, b u + d v + f)\<close>; \<open>translate\<close>, \<open>rotate\<close> and
  \<open>scale\<close> multiply it from the right, as the HTML canvas interface defines them.
\<close>

record Matrix =
  m_a :: real
  m_b :: real
  m_c :: real
  m_d :: real
  m_e :: real
  m_f :: real

record DrawOp =
  op_image :: Image
  op_dx :: real
  op_dy :: real
  op_matrix :: Matrix
  op_alpha :: real

record Ctx =
  ctm :: Matrix
  globalAlpha :: real
  saved :: "(Matrix \<times> real) list"
  ops :: "DrawOp list"

definition identityMatrix :: Matrix where
  "identityMatrix = \<lparr>m_a = 1, m_b = 0, m_c = 0, m_d = 1, m_e = 0, m_f = 0\<rparr>"

definition newCtx :: Ctx where
  "newCtx = \<lparr>ctm = identityMatrix, globalAlpha = 1, saved = [], ops = []\<rparr>"

definition applyMatrix :: "Matrix \<Rightarrow> real \<times> real \<Rightarrow> real \<times> real" where
  "applyMatrix m p =
     (m_a m * fst p + m_c m * snd p + m_e m, m_b m * fst p + m_d m * snd p + m_f m)"

definition ctx_save :: "Ctx \<Rightarrow> Ctx" where
  "ctx_save ctx = ctx\<lparr>saved := (ctm ctx, globalAlpha ctx) # saved ctx\<rparr>"

definition ctx_restore :: "Ctx \<Rightarrow> Ctx" where
  "ctx_restore ctx =
     (case saved ctx of [] \<Rightarrow> ctx
      | (m, al) # rest \<Rightarrow> ctx\<lparr>ctm := m, globalAlpha := al, saved := rest\<rparr>)"

definition ctx_translate :: "real \<Rightarrow> real \<Rightarrow> Ctx \<Rightarrow> Ctx" where
  "ctx_translate dx dy ctx =
     (let m = ctm ctx in
      ctx\<lparr>ctm := m\<lparr>m_e := m_a m * dx + m_c m * dy + m_e m,
                     m_f := m_b m * dx + m_d m * dy + m_f m\<rparr>\<rparr>)"

definition ctx_rotate :: "real \<Rightarrow> Ctx \<Rightarrow> Ctx" where
  "ctx_rotate angle ctx =
     (let m = ctm ctx in
      ctx\<lparr>ctm := m\<lparr>m_a := m_a m * cos angle + m_c m * sin angle,
                     m_b := m_b m * cos angle + m_d m * sin angle,
                     m_c := m_c m * cos angle - m_a m * sin angle,
                     m_d := m_d m * cos angle - m_b m * sin angle\<rparr>\<rparr>)"

definition ctx_scale :: "real \<Rightarrow> real \<Rightarrow> Ctx \<Rightarrow> Ctx" where
  "ctx_scale sx sy ctx =
     (let m = ctm ctx in
      ctx\<lparr>ctm := m\<lparr>m_a := m_a m * sx, m_b := m_b m * sx,
                     m_c := m_c m * sy, m_d := m_d m * sy\<rparr>\<rparr>)"

definition ctx_drawImage :: "Image \<Rightarrow> real \<Rightarrow> real \<Rightarrow> Ctx \<Rightarrow> Ctx" where
  "ctx_drawImage img dx dy ctx =
     ctx\<lparr>ops := ops ctx @
        [\<lparr>op_image = img, op_dx = dx, op_dy = dy, op_matrix = ctm ctx,
          op_alpha = globalAlpha ctx\<rparr>]\<rparr>"

text \<open>
  \<open>clearRect(0, 0, width, height)\<close> is only ever called with the identity matrix in
  force and covers the whole canvas: nothing drawn before it remains.
\<close>

definition ctx_clearAll :: "Ctx \<Rightarrow> Ctx" where
  "ctx_clearAll ctx = ctx\<lparr>ops := []\<rparr>"

text \<open>The canvas position of the centre of a drawn image: the layer's sample point.\<close>

definition opCentre :: "DrawOp \<Rightarrow> real \<times> real" where
  "opCentre d =
     applyMatrix (op_matrix d)
       (op_dx d + img_width (op_image d) / 2, op_dy d + img_height (op_image d) / 2)"

section \<open>drawLayer\<close>

definition drawLayer :: "Ctx \<Rightarrow> Layer \<Rightarrow> real \<Rightarrow> real \<Rightarrow> Ctx" where
  "drawLayer ctx layer time sz =
     (if \<not> visible layer \<or> length (frames layer) = 0 then ctx
      else
        (let frame = activeFrame (frames layer) time;
             c1 = ctx_save ctx;
             c2 = ctx_translate (sz / 2) (sz / 2) c1;
             c3 = ctx_translate (cfg_x (config layer)) (cfg_y (config layer)) c2;
             c4 = ctx_rotate (cfg_rotation (config layer) * pi / 180) c3;
             c5 = ctx_scale (cfg_scale (config layer)) (cfg_scale (config layer)) c4;
             c6 = c5\<lparr>globalAlpha := cfg_opacity (config layer)\<rparr>;
             c7 = ctx_drawImage (image frame)
                    (- img_width (image frame) / 2) (- img_height (image frame) / 2) c6
         in ctx_restore c7))"

text \<open>
  The layer of the transform-order test: one frame holding a 1 by 1 image, moved by
  (10, 0), scaled by 2 and rotated by 90 degrees.
\<close>

definition pixelLayer :: Layer where
  "pixelLayer =
     \<lparr>layer_id = ''pixel'', name = ''pixel.png'',
      frames = [\<lparr>image = \<lparr>img_src = 7, img_width = 1, img_height = 1\<rparr>, delay = 100\<rparr>],
      config = \<lparr>cfg_x = 10, cfg_y = 0, cfg_scale = 2, cfg_rotation = 90, cfg_opacity = 1\<rparr>,
      visible = True, locked = False, isBase = None\<rparr>"

section \<open>DataView and typed-array primitives\<close>

text \<open>
  Little-endian reads through a \<open>DataView\<close>: a read that leaves the buffer raises a
  \<open>RangeError\<close>.
\<close>

definition getUint16 :: "byte list \<Rightarrow> int \<Rightarrow> js_error + int" where
  "getUint16 buf off =
     (if 0 \<le> off \<and> off + 2 \<le> int (length buf)
      then Inr (uint (buf ! nat off) + 256 * uint (buf ! nat (off + 1)))
      else Inl RangeError)"

definition getUint32 :: "byte list \<Rightarrow> int \<Rightarrow> js_error + int" where
  "getUint32 buf off =
     (if 0 \<le> off \<and> off + 4 \<le> int (length buf)
      then Inr (uint (buf ! nat off) + 256 * uint (buf ! nat (off + 1))
                + 65536 * uint (buf ! nat (off + 2)) + 16777216 * uint (buf ! nat (off + 3)))
      else Inl RangeError)"

text \<open>
  Little-endian writes. The value is reduced modulo the field width, as \<open>ToUint8\<close>,
  \<open>ToUint16\<close> and \<open>ToUint32\<close> do for integers. The only writer, the cursor header
  below, writes at fixed offsets below 22 into a buffer of at least 22 bytes, so the
  range check of the \<open>DataView\<close> never fires there.
\<close>

definition setUint8 :: "nat \<Rightarrow> int \<Rightarrow> byte list \<Rightarrow> byte list" where
  "setUint8 off v buf = buf[off := word_of_int v]"

definition setUint16 :: "nat \<Rightarrow> int \<Rightarrow> byte list \<Rightarrow> byte list" where
  "setUint16 off v buf = buf[off := word_of_int v, off + 1 := word_of_int (v div 256)]"

definition setUint32 :: "nat \<Rightarrow> int \<Rightarrow> byte list \<Rightarrow> byte list" where
  "setUint32 off v buf =
     buf[off := word_of_int v, off + 1 := word_of_int (v div 256),
         off + 2 := word_of_int (v div 65536), off + 3 := word_of_int (v div 16777216)]"

text \<open>\<open>target.set(src, off)\<close> on a \<open>Uint8Array\<close>, for a source that fits.\<close>

definition setBytes :: "byte list \<Rightarrow> nat \<Rightarrow> byte list \<Rightarrow> byte list" where
  "setBytes src off buf = take off buf @ src @ drop (off + length src) buf"

section \<open>Export (generateExportBlob)\<close>

datatype format = PNG | CUR | ANI

text \<open>The cursor file built around the PNG bytes of one composite frame.\<close>

definition curBlob :: "int \<Rightarrow> Hotspot \<Rightarrow> byte list \<Rightarrow> byte list" where
  "curBlob outSize hs pngBytes =
     (let sz = int (length pngBytes);
          head = replicate (22 + length pngBytes) 0;
          v1 = setUint16 4 1 (setUint16 2 2 (setUint16 0 0 head));
          w = (if outSize \<ge> 256 then 0 else outSize);
          v2 = setUint8 9 0 (setUint8 8 0 (setUint8 7 w (setUint8 6 w v1)));
          v3 = setUint16 12 (hot_y hs) (setUint16 10 (hot_x hs) v2);
          v4 = setUint32 18 22 (setUint32 14 sz v3)
      in setBytes pngBytes 22 v4)"

text \<open>
  The environment of an export: whether the fresh canvas hands out a 2D context, and
  the PNG encoder behind \<open>canvas.toBlob\<close>, which sees the canvas size and what was
  drawn, and may call back with \<open>null\<close>.
\<close>

record Env =
  hasContext :: bool
  toBlob :: "int \<Rightarrow> DrawOp list \<Rightarrow> byte list option"

record ExportResult =
  blobs :: "byte list list"
  rates :: "int list"

text \<open>
  The search for the master layer: \<open>maxFrames\<close> starts at 1 and \<open>masterLayer\<close> at
  \<open>activeLayers[0]\<close>, which is \<open>undefined\<close> for an empty stack; a layer takes over only
  with strictly more frames.
\<close>

definition pickMaster :: "nat \<times> Layer option \<Rightarrow> Layer \<Rightarrow> nat \<times> Layer option" where
  "pickMaster acc l =
     (if length (frames l) > fst acc then (length (frames l), Some l) else acc)"

definition findMaster :: "Layer list \<Rightarrow> nat \<times> Layer option" where
  "findMaster ls = foldl pickMaster (1, case ls of [] \<Rightarrow> None | l # _ \<Rightarrow> Some l) ls"

text \<open>
  \<open>for (let k = 0; k < i; k++) time += masterLayer.frames[k % n].delay\<close>: every
  addition rounds.
\<close>

definition exportTime :: "Layer \<Rightarrow> nat \<Rightarrow> real" where
  "exportTime m i =
     (if length (frames m) > 0
      then foldl (\<lambda>t k. fl (t + delay (frames m ! (k mod length (frames m))))) 0 [0..<i]
      else 0)"

definition exportDelay :: "Layer \<Rightarrow> nat \<Rightarrow> real" where
  "exportDelay m i =
     (if length (frames m) > 0 then delay (frames m ! (i mod length (frames m))) else 100)"

text \<open>
  \<open>Math.max(1, Math.round(d / 16.666))\<close>: the literal is the binary64 value nearest to
  16.666, the quotient rounds, and \<open>Math.round\<close> takes the nearest integer of that value,
  halves up.
\<close>

definition rateOf :: "real \<Rightarrow> int" where
  "rateOf d = max 1 (round (fl (d / fl 16.666)))"

definition renderStack :: "Ctx \<Rightarrow> CursorState \<Rightarrow> real \<Rightarrow> Ctx" where
  "renderStack ctx st time =
     foldl (\<lambda>c l. drawLayer c l time (of_int (outputSize st))) (ctx_clearAll ctx) (layers st)"

text \<open>
  One iteration of the export loop. Reading \<open>masterLayer.frames\<close> of an undefined
  master layer is a \<open>TypeError\<close>. The rate is pushed whether or not the encoder
  delivered bytes.
\<close>

definition exportStep ::
  "Env \<Rightarrow> format \<Rightarrow> CursorState \<Rightarrow> Layer option \<Rightarrow> nat
    \<Rightarrow> Ctx \<times> byte list list \<times> int list \<Rightarrow> js_error + (Ctx \<times> byte list list \<times> int list)"
where
  "exportStep env fmt st master i acc =
     (case master of
        None \<Rightarrow> Inl TypeError
      | Some m \<Rightarrow>
          (case acc of (ctx, frameBlobs, rs) \<Rightarrow>
            (let time = exportTime m i;
                 ctx' = renderStack ctx st time;
                 frameBlobs' =
                   (case toBlob env (outputSize st) (ops ctx') of
                      None \<Rightarrow> frameBlobs
                    | Some pngBytes \<Rightarrow>
                        (if fmt = PNG \<and> i = 0 then frameBlobs @ [pngBytes]
                         else frameBlobs @ [curBlob (outputSize st) (hotspot st) pngBytes]));
                 d = exportDelay m i
             in Inr (ctx', frameBlobs', rs @ [rateOf d]))))"

fun exportLoop ::
  "(nat \<Rightarrow> 'a \<Rightarrow> js_error + 'a) \<Rightarrow> nat list \<Rightarrow> 'a \<Rightarrow> js_error + 'a" where
  "exportLoop step [] acc = Inr acc"
| "exportLoop step (i # is) acc =
     (case step i acc of Inl e \<Rightarrow> Inl e | Inr acc' \<Rightarrow> exportLoop step is acc')"

text \<open>
  The result is \<open>None\<close> for the early \<open>return\<close> without a context, an error for a
  rejected promise.
\<close>

definition generateExportBlob ::
  "Env \<Rightarrow> format \<Rightarrow> CursorState \<Rightarrow> js_error + ExportResult option" where
  "generateExportBlob env fmt st =
     (if \<not> hasContext env then Inr None
      else
        (let (maxFrames, masterLayer) = findMaster (layers st);
             loopCount = (if fmt = ANI then maxFrames else 1)
         in case exportLoop (exportStep env fmt st masterLayer) [0..<loopCount]
                   (newCtx, [], [])
            of Inl e \<Rightarrow> Inl e
             | Inr (ctx, frameBlobs, rs) \<Rightarrow> Inr (Some \<lparr>blobs = frameBlobs, rates = rs\<rparr>)))"

text \<open>
  The frame count of the specification: the greatest frame count over the layers, and
  1 when every layer is empty.
\<close>

definition specFrameCount :: "Layer list \<Rightarrow> nat" where
  "specFrameCount ls =
     (if list_all (\<lambda>l. frames l = []) ls then 1
      else Max (set (map (\<lambda>l. length (frames l)) ls)))"

text \<open>Test data for the export: the four signature bytes of a PNG as encoder output.\<close>

definition pngSig :: "byte list" where
  "pngSig = [0x89, 0x50, 0x4E, 0x47]"

definition mkLayer :: "string \<Rightarrow> FrameData list \<Rightarrow> Layer" where
  "mkLayer i fs =
     \<lparr>layer_id = i, name = i, frames = fs, config = DEFAULT_TRANSFORM,
      visible = True, locked = False, isBase = None\<rparr>"

definition mkState :: "Layer list \<Rightarrow> CursorState" where
  "mkState ls =
     \<lparr>layers = ls, hotspot = \<lparr>hot_x = 5, hot_y = 7\<rparr>, outputSize = 32, fileName = ''''\<rparr>"

text \<open>An encoder that always delivers, and one that fails on the image with handle 1.\<close>

definition goodEnv :: Env where
  "goodEnv = \<lparr>hasContext = True, toBlob = (\<lambda>sz ds. Some pngSig)\<rparr>"

definition flakyEnv :: Env where
  "flakyEnv =
     \<lparr>hasContext = True,
      toBlob = (\<lambda>sz ds. if list_ex (\<lambda>d. img_src (op_image d) = 1) ds then None
                         else Some pngSig)\<rparr>"

text \<open>A stack whose layers have 1, 4 and 2 frames.\<close>

definition stack_1_4_2 :: "Layer list" where
  "stack_1_4_2 =
     [mkLayer ''a'' [mkFrame 0 100],
      mkLayer ''b'' [mkFrame 1 100, mkFrame 2 150, mkFrame 3 250, mkFrame 4 50],
      mkLayer ''c'' [mkFrame 5 100, mkFrame 6 200]]"

text \<open>An empty Base layer below an overlay with a single frame of 250 ms.\<close>

definition stack_empty_then_single :: "Layer list" where
  "stack_empty_then_single = [createBaseLayer, mkLayer ''o'' [mkFrame 9 250]]"

text \<open>One layer with two frames, the second one showing the image with handle 1.\<close>

definition stack_two_frames :: "Layer list" where
  "stack_two_frames = [mkLayer ''a'' [mkFrame 0 100, mkFrame 1 150]]"

section \<open>Loading static files (parseFile) and animated cursors (parseAniFile)\<close>

text \<open>\<open>bytes[i]\<close> on a \<open>Uint8Array\<close>: \<open>undefined\<close> outside the array.\<close>

definition byteAt :: "byte list \<Rightarrow> nat \<Rightarrow> byte option" where
  "byteAt bytes i = (if i < length bytes then Some (bytes ! i) else None)"

text \<open>
  \<open>bytes.slice(a, b)\<close> for \<open>0 \<le> a\<close>: both ends are clamped to the array. Every call
  in the source has a non-negative start.
\<close>

definition slice :: "byte list \<Rightarrow> int \<Rightarrow> int \<Rightarrow> byte list" where
  "slice bytes a b = take (nat (b - a)) (drop (nat a) bytes)"

text \<open>What is handed to the browser's image decoder: the bytes and the declared type.\<close>

record Blob =
  blob_bytes :: "byte list"
  blob_type :: string

definition isCurDirectory :: "byte list \<Rightarrow> bool" where
  "isCurDirectory bytes =
     (byteAt bytes 0 = Some 0 \<and> byteAt bytes 1 = Some 0 \<and> byteAt bytes 2 = Some 2
      \<and> byteAt bytes 3 = Some 0)"

text \<open>
  The scan \<open>for (let i = 0; i < bytes.length - 8; i++)\<close> for the first offset with the
  bytes 0x89, 0x50.
\<close>

definition findPngStart :: "byte list \<Rightarrow> nat option" where
  "findPngStart bytes =
     find (\<lambda>i. bytes ! i = 0x89 \<and> bytes ! (i + 1) = 0x50) [0..<length bytes - 8]"

definition staticBlob :: "byte list \<Rightarrow> Blob" where
  "staticBlob bytes =
     (if isCurDirectory bytes
      then (case findPngStart bytes of
              Some i \<Rightarrow> \<lparr>blob_bytes = drop i bytes, blob_type = ''image/png''\<rparr>
            | None \<Rightarrow> \<lparr>blob_bytes = bytes, blob_type = ''image/x-icon''\<rparr>)
      else \<lparr>blob_bytes = bytes, blob_type = ''image/png''\<rparr>)"

text \<open>
  The static branch of \<open>parseFile\<close>. The image decoder is the browser's: \<open>None\<close> stands
  for an image whose \<open>onload\<close> never fires, on which the function waits forever.
\<close>

definition parseStaticFile :: "(Blob \<Rightarrow> Image option) \<Rightarrow> byte list \<Rightarrow> FrameData list option" where
  "parseStaticFile loadImage bytes =
     (case loadImage (staticBlob bytes) of
        None \<Rightarrow> None
      | Some img \<Rightarrow> Some [\<lparr>image = img, delay = 100\<rparr>])"

text \<open>Test payloads: an icon directory of type 1 and cursor directories of type 2.\<close>

definition pngStub :: "byte list" where
  "pngStub = pngSig @ [0x0D, 0x0A, 0x1A, 0x0A, 0, 0, 0, 0x0D, 0x49, 0x48, 0x44, 0x52]"

definition icoPayload :: "byte list" where
  "icoPayload =
     [0, 0, 1, 0, 1, 0, 32, 32, 0, 0, 1, 0, 32, 0, 16, 0, 0, 0, 22, 0, 0, 0] @ pngStub"

definition curPayload :: "byte list" where
  "curPayload =
     [0, 0, 2, 0, 1, 0, 32, 32, 0, 0, 5, 0, 7, 0, 16, 0, 0, 0, 22, 0, 0, 0] @ pngStub"

text \<open>A cursor whose length field, 0x5089 = 20617, starts with the bytes 0x89, 0x50.\<close>

definition curPayloadStray :: "byte list" where
  "curPayloadStray =
     [0, 0, 2, 0, 1, 0, 32, 32, 0, 0, 5, 0, 7, 0, 0x89, 0x50, 0, 0, 22, 0, 0, 0] @ pngStub"

subsection \<open>The chunk walk of parseAniFile\<close>

definition tag_RIFF :: "byte list" where "tag_RIFF = [0x52, 0x49, 0x46, 0x46]"
definition tag_anih :: "byte list" where "tag_anih = [0x61, 0x6E, 0x69, 0x68]"
definition tag_rate :: "byte list" where "tag_rate = [0x72, 0x61, 0x74, 0x65]"
definition tag_LIST :: "byte list" where "tag_LIST = [0x4C, 0x49, 0x53, 0x54]"
definition tag_fram :: "byte list" where "tag_fram = [0x66, 0x72, 0x61, 0x6D]"
definition tag_icon :: "byte list" where "tag_icon = [0x69, 0x63, 0x6F, 0x6E]"

text \<open>
  \<open>for (let i = 0; i < size / 4; i++) rates.push(data.getUint32(pos + i * 4, true))\<close>:
  the division is exact, so the test is \<open>4 i < size\<close>.
\<close>

function readRates :: "byte list \<Rightarrow> int \<Rightarrow> int \<Rightarrow> int \<Rightarrow> int list \<Rightarrow> js_error + int list" where
  "readRates data pos sz i acc =
     (if i * 4 < sz
      then (case getUint32 data (pos + i * 4) of
              Inl e \<Rightarrow> Inl e
            | Inr v \<Rightarrow> readRates data pos sz (i + 1) (acc @ [v]))
      else Inr acc)"
  by pat_completeness auto
termination
  by (relation "measure (\<lambda>(data, pos, sz, i, acc). nat (sz - i * 4))") auto

text \<open>
  One sub-chunk of a \<open>fram\<close> list: the state is the read position \<open>ip\<close> and the icon
  payloads collected so far.
\<close>

definition framStep :: "byte list \<Rightarrow> int \<times> byte list list \<Rightarrow> js_error + (int \<times> byte list list)" where
  "framStep bytes s =
     (case s of (ip, icons) \<Rightarrow>
        (let iid = slice bytes ip (ip + 4) in
         case getUint32 bytes (ip + 4) of
           Inl e \<Rightarrow> Inl e
         | Inr isz \<Rightarrow>
             (let ip1 = ip + 8;
                  icons' = (if iid = tag_icon then icons @ [slice bytes ip1 (ip1 + isz)]
                            else icons)
              in Inr (ip1 + isz + isz mod 2, icons'))))"

text \<open>
  \<open>while (ip < end - 8)\<close>. The loop is defined as a partial function: \<open>None\<close> would be a
  walk that never returns.
\<close>

partial_function (option) framLoop ::
  "byte list \<Rightarrow> int \<Rightarrow> int \<times> byte list list \<Rightarrow> (js_error + (int \<times> byte list list)) option"
where
  "framLoop bytes endp s =
     (if fst s < endp - 8
      then (case framStep bytes s of
              Inl e \<Rightarrow> Some (Inl e)
            | Inr s' \<Rightarrow> framLoop bytes endp s')
      else Some (Inr s))"

record AniWalk =
  w_pos :: int
  w_defaultRate :: int
  w_rates :: "int list"
  w_iconChunks :: "byte list list"

text \<open>The effect of one top-level chunk on the collected data, before \<open>pos\<close> moves on.\<close>

definition chunkBody ::
  "byte list \<Rightarrow> byte list \<Rightarrow> int \<Rightarrow> int \<Rightarrow> AniWalk \<Rightarrow> (js_error + AniWalk) option" where
  "chunkBody bytes cid sz pos w =
     (if cid = tag_anih \<and> sz \<ge> 36
      then (case getUint32 bytes (pos + 28) of
              Inl e \<Rightarrow> Some (Inl e)
            | Inr v \<Rightarrow> Some (Inr (w\<lparr>w_defaultRate := v\<rparr>)))
      else if cid = tag_rate
      then (case readRates bytes pos sz 0 (w_rates w) of
              Inl e \<Rightarrow> Some (Inl e)
            | Inr rs \<Rightarrow> Some (Inr (w\<lparr>w_rates := rs\<rparr>)))
      else if cid = tag_LIST
      then (if slice bytes pos (pos + 4) = tag_fram
            then (case framLoop bytes (pos + sz) (pos + 4, w_iconChunks w) of
                    None \<Rightarrow> None
                  | Some (Inl e) \<Rightarrow> Some (Inl e)
                  | Some (Inr s) \<Rightarrow> Some (Inr (w\<lparr>w_iconChunks := snd s\<rparr>)))
            else Some (Inr w))
      else Some (Inr w))"

definition topStep :: "byte list \<Rightarrow> AniWalk \<Rightarrow> (js_error + AniWalk) option" where
  "topStep bytes w =
     (let cid = slice bytes (w_pos w) (w_pos w + 4) in
      case getUint32 bytes (w_pos w + 4) of
        Inl e \<Rightarrow> Some (Inl e)
      | Inr sz \<Rightarrow>
          (let pos = w_pos w + 8 in
           case chunkBody bytes cid sz pos w of
             None \<Rightarrow> None
           | Some (Inl e) \<Rightarrow> Some (Inl e)
           | Some (Inr w') \<Rightarrow> Some (Inr (w'\<lparr>w_pos := pos + sz + sz mod 2\<rparr>))))"

text \<open>\<open>while (pos < bytes.length - 8)\<close>.\<close>

partial_function (option) walkLoop ::
  "byte list \<Rightarrow> AniWalk \<Rightarrow> (js_error + AniWalk) option"
where
  "walkLoop bytes w =
     (if w_pos w < int (length bytes) - 8
      then (case topStep bytes w of
              None \<Rightarrow> None
            | Some (Inl e) \<Rightarrow> Some (Inl e)
            | Some (Inr w') \<Rightarrow> walkLoop bytes w')
      else Some (Inr w))"

definition initialWalk :: AniWalk where
  "initialWalk = \<lparr>w_pos = 12, w_defaultRate = 60, w_rates = [], w_iconChunks = []\<rparr>"

text \<open>The chunk walk of a file: the magic number is checked first.\<close>

definition aniChunkWalk :: "byte list \<Rightarrow> (js_error + AniWalk) option" where
  "aniChunkWalk bytes =
     (if slice bytes 0 4 \<noteq> tag_RIFF then Some (Inl InvalidANI)
      else walkLoop bytes initialWalk)"

subsection \<open>From icon chunks to frames\<close>

definition iconBlob :: "byte list \<Rightarrow> Blob" where
  "iconBlob chunk =
     \<lparr>blob_bytes = chunk,
      blob_type = (if byteAt chunk 0 = Some 0 \<and> byteAt chunk 2 = Some 2
                   then ''image/x-icon'' else ''image/png'')\<rparr>"

text \<open>
  \<open>(i < rates.length ? rates[i] : defaultRate) * (1000 / 60)\<close>: the quotient and the
  product round.
\<close>

definition frameDelay :: "int list \<Rightarrow> int \<Rightarrow> nat \<Rightarrow> real" where
  "frameDelay rs dr i =
     fl (of_int (if i < length rs then rs ! i else dr) * fl (1000 / 60))"

fun loadFrames ::
  "(Blob \<Rightarrow> Image option) \<Rightarrow> int list \<Rightarrow> int \<Rightarrow> nat \<Rightarrow> byte list list \<Rightarrow> FrameData list option"
where
  "loadFrames loadImage rs dr i [] = Some []"
| "loadFrames loadImage rs dr i (chunk # cs) =
     (case loadImage (iconBlob chunk) of
        None \<Rightarrow> None
      | Some img \<Rightarrow>
          (case loadFrames loadImage rs dr (Suc i) cs of
             None \<Rightarrow> None
           | Some fs \<Rightarrow> Some (\<lparr>image = img, delay = frameDelay rs dr i\<rparr> # fs)))"

definition parseAniFile ::
  "(Blob \<Rightarrow> Image option) \<Rightarrow> byte list \<Rightarrow> (js_error + FrameData list) option" where
  "parseAniFile loadImage bytes =
     (case aniChunkWalk bytes of
        None \<Rightarrow> None
      | Some (Inl e) \<Rightarrow> Some (Inl e)
      | Some (Inr w) \<Rightarrow>
          (case loadFrames loadImage (w_rates w) (w_defaultRate w) 0 (w_iconChunks w) of
             None \<Rightarrow> None
           | Some fs \<Rightarrow> Some (Inr fs)))"

section \<open>Writing the animated cursor (download)\<close>

text \<open>
  The ANI branch of \<open>download\<close> fills zero-initialised arrays through \<open>set\<close> and
  \<open>setUint32\<close> at consecutive offsets; the result is written here as the concatenation
  of the pieces.
\<close>

definition u32le :: "int \<Rightarrow> byte list" where
  "u32le v =
     [word_of_int v, word_of_int (v div 256), word_of_int (v div 65536),
      word_of_int (v div 16777216)]"

definition tag_ACON :: "byte list" where "tag_ACON = [0x41, 0x43, 0x4F, 0x4E]"

definition anihChunk :: "nat \<Rightarrow> byte list" where
  "anihChunk n =
     tag_anih @ u32le 36 @
     (u32le 36 @ u32le (int n) @ u32le (int n) @ replicate 16 0 @ u32le 60 @ u32le 1)"

definition rateChunk :: "int list \<Rightarrow> byte list" where
  "rateChunk rs = tag_rate @ u32le (int (length rs) * 4) @ concat (map u32le rs)"

definition iconChunk :: "byte list \<Rightarrow> byte list" where
  "iconChunk b = tag_icon @ u32le (int (length b)) @ b @ replicate (length b mod 2) 0"

definition listChunk :: "byte list list \<Rightarrow> byte list" where
  "listChunk bs =
     (let ics = map iconChunk bs;
          tot = sum_list (map length ics)
      in tag_LIST @ u32le (4 + int tot) @ tag_fram @ concat ics)"

definition aniFileBytes :: "ExportResult \<Rightarrow> byte list" where
  "aniFileBytes res =
     (let chunks = [anihChunk (length (blobs res)), rateChunk (rates res),
                    listChunk (blobs res)];
          len = 12 + sum_list (map length chunks)
      in tag_RIFF @ u32le (int len - 8) @ tag_ACON @ concat chunks)"

text \<open>
  Test data: three cursor frames with the rates 6, 6 and 12, an image decoder that
  accepts every blob, and a file with an empty chunk followed by a list whose declared
  sizes exceed the buffer.
\<close>

definition frames_6_6_12 :: ExportResult where
  "frames_6_6_12 =
     \<lparr>blobs = [curBlob 32 \<lparr>hot_x = 5, hot_y = 7\<rparr> (pngStub @ [1]),
               curBlob 32 \<lparr>hot_x = 5, hot_y = 7\<rparr> (pngStub @ [2, 2]),
               curBlob 32 \<lparr>hot_x = 5, hot_y = 7\<rparr> (pngStub @ [3])],
      rates = [6, 6, 12]\<rparr>"

definition anyImage :: "Blob \<Rightarrow> Image option" where
  "anyImage b = Some \<lparr>img_src = length (blob_bytes b), img_width = 32, img_height = 32\<rparr>"

definition aniOversized :: "byte list" where
  "aniOversized =
     tag_RIFF @ [0, 0, 0, 0] @ tag_ACON
     @ [0x6A, 0x75, 0x6E, 0x6B] @ [0, 0, 0, 0]
     @ tag_LIST @ [0xF4, 0x01, 0, 0] @ tag_fram
     @ tag_icon @ [0xF4, 0x01, 0, 0] @ [1, 2, 3, 4, 5, 6, 7, 8, 9]"

text \<open>The same file with a declared list size of 1000: the walk reads past the buffer.\<close>

definition aniTruncated :: "byte list" where
  "aniTruncated =
     tag_RIFF @ [0, 0, 0, 0] @ tag_ACON
     @ [0x6A, 0x75, 0x6E, 0x6B] @ [0, 0, 0, 0]
     @ tag_LIST @ [0xE8, 0x03, 0, 0] @ tag_fram
     @ tag_icon @ [0xF4, 0x01, 0, 0] @ [1, 2, 3, 4, 5, 6, 7, 8, 9]"

text \<open>The unfolding equations of the two loops, for evaluation.\<close>

declare framLoop.simps [code] walkLoop.simps [code]

text \<open>
  The dominant layer of the specification: the first layer of the stack whose frame
  count is the greatest one.
\<close>

definition dominantLayer :: "Layer list \<Rightarrow> Layer option" where
  "dominantLayer ls =
     find (\<lambda>l. length (frames l) = Max (set (map (\<lambda>l. length (frames l)) ls))) ls"

section \<open>Properties of the binary64 rounding\<close>

lemma rne_of_int: "rne (of_int z) = z"
  by (simp add: rne_def)

lemma floor_log2_eq:
  assumes "2 powi k \<le> \<bar>x\<bar>" and "\<bar>x\<bar> < 2 powi (k + 1)"
  shows "\<lfloor>log 2 \<bar>x\<bar>\<rfloor> = k"
proof -
  have pos: "0 < \<bar>x\<bar>" using assms(1) by (smt (verit) zero_less_power_int)
  have a: "(2::real) powr of_int k = 2 powi k" by (simp add: powr_real_of_int')
  have b: "(2::real) powr (of_int k + 1) = 2 powi (k + 1)"
    using powr_real_of_int'[of 2 "k + 1"] by simp
  have "2 powr of_int k \<le> \<bar>x\<bar> \<and> \<bar>x\<bar> < 2 powr (of_int k + 1)"
    unfolding a b using assms by simp
  then show ?thesis using pos by (simp add: floor_log_eq_powr_iff)
qed

lemma floor_log2_bounds:
  assumes "x \<noteq> 0"
  shows "2 powi \<lfloor>log 2 \<bar>x\<bar>\<rfloor> \<le> \<bar>x\<bar> \<and> \<bar>x\<bar> < 2 powi (\<lfloor>log 2 \<bar>x\<bar>\<rfloor> + 1)"
proof -
  let ?k = "\<lfloor>log 2 \<bar>x\<bar>\<rfloor>"
  have pos: "0 < \<bar>x\<bar>" using assms by simp
  have "2 powr of_int ?k \<le> \<bar>x\<bar> \<and> \<bar>x\<bar> < 2 powr (of_int ?k + 1)"
    using floor_log_eq_powr_iff[of "\<bar>x\<bar>" 2 ?k] pos by simp
  moreover have "(2::real) powr of_int ?k = 2 powi ?k" by (simp add: powr_real_of_int')
  moreover have "(2::real) powr (of_int ?k + 1) = 2 powi (?k + 1)"
    using powr_real_of_int'[of 2 "?k + 1"] by simp
  ultimately show ?thesis by simp
qed

text \<open>The rounding of a value whose binade \<open>[2 ^ k, 2 ^ (k + 1))\<close> is known.\<close>

lemma fl_eval:
  assumes "2 powi k \<le> \<bar>x\<bar>" and "\<bar>x\<bar> < 2 powi (k + 1)" and "e = max (k - 52) (- 1074)"
  shows "fl x = of_int (rne (x / 2 powi e)) * 2 powi e"
proof -
  have "x \<noteq> 0" using assms(1) by (smt (verit) zero_less_power_int)
  then show ?thesis
    using floor_log2_eq[OF assms(1,2)] assms(3) by (simp add: fl_def Let_def)
qed

text \<open>Rounding leaves every \<open>m * 2 ^ e\<close> with \<open>\<bar>m\<bar> < 2 ^ 53\<close> and \<open>- 1074 \<le> e\<close> as it is.\<close>

lemma fl_exact:
  assumes "x = of_int m * 2 powi e" and "\<bar>m\<bar> < 2 ^ 53" and "- 1074 \<le> e"
  shows "fl x = x"
proof (cases "x = 0")
  case True
  then show ?thesis by (simp add: fl_def)
next
  case False
  let ?k = "\<lfloor>log 2 \<bar>x\<bar>\<rfloor>"
  let ?e = "max (?k - 52) (- 1074)"
  have lo: "2 powi ?k \<le> \<bar>x\<bar>" using floor_log2_bounds[OF False] by simp
  have "\<bar>x\<bar> = of_int \<bar>m\<bar> * 2 powi e" using assms(1) by (simp add: abs_mult)
  also have "\<dots> < 2 ^ 53 * 2 powi e"
  proof -
    have "(of_int \<bar>m\<bar> :: real) < 2 ^ 53"
      using assms(2) by (metis of_int_less_numeral_power_cancel_iff)
    then show ?thesis by (simp add: mult_strict_right_mono)
  qed
  also have "\<dots> = 2 powi (53 + e)" by (simp add: power_int_add)
  finally have "(2::real) powi ?k < 2 powi (53 + e)" using lo by simp
  then have "?k < 53 + e"
    using power_int_increasing[of "53 + e" ?k "2::real"] by (cases "?k < 53 + e") auto
  then have le: "?e \<le> e" using assms(3) by simp
  define n where "n = nat (e - ?e)"
  have e: "e = ?e + int n" using le by (simp add: n_def)
  have "x / 2 powi ?e = of_int m * (2 powi e / 2 powi ?e)" using assms(1) by simp
  also have "2 powi e / 2 powi ?e = (2::real) ^ n"
    by (subst e) (simp add: power_int_add)
  finally have q: "x / 2 powi ?e = of_int (m * 2 ^ n)" by simp
  have "fl x = of_int (rne (x / 2 powi ?e)) * 2 powi ?e"
    using False by (simp add: fl_def Let_def)
  also have "\<dots> = of_int (m * 2 ^ n) * 2 powi ?e" unfolding q rne_of_int ..
  also have "\<dots> = of_int m * (2 ^ n * 2 powi ?e)" by simp
  also have "2 ^ n * 2 powi ?e = (2::real) powi e" by (subst e) (simp add: power_int_add)
  finally show ?thesis using assms(1) by simp
qed

lemma fl_of_int: "\<bar>n\<bar> < 2 ^ 53 \<Longrightarrow> fl (of_int n) = of_int n"
  using fl_exact[of "of_int n" n 0] by simp

lemma fl_zero: "fl 0 = 0"
  by (simp add: fl_def)

lemma fl_numeral: "(numeral w :: int) < 2 ^ 53 \<Longrightarrow> fl (numeral w) = numeral w"
  using fl_of_int[of "numeral w"] by simp






section \<open>Properties of the active frame selection\<close>











text \<open>Roundings that occur on the five frames of rate 2.\<close>

lemma fl_1000_60: "fl (1000 / 60) = 4691249611844267 / 2 ^ 48"
  by (subst fl_eval[where k = 4 and e = "- 48"]) (simp_all add: rne_def power_int_minus)









section \<open>Transform order of the compositor\<close>

lemma drawLayer_ops:
  assumes "visible layer" and "frames layer \<noteq> []"
  shows "ops (drawLayer newCtx layer time sz) =
    [\<lparr>op_image = image (activeFrame (frames layer) time),
      op_dx = - img_width (image (activeFrame (frames layer) time)) / 2,
      op_dy = - img_height (image (activeFrame (frames layer) time)) / 2,
      op_matrix =
        \<lparr>m_a = cfg_scale (config layer) * cos (cfg_rotation (config layer) * pi / 180),
         m_b = cfg_scale (config layer) * sin (cfg_rotation (config layer) * pi / 180),
         m_c = - (cfg_scale (config layer) * sin (cfg_rotation (config layer) * pi / 180)),
         m_d = cfg_scale (config layer) * cos (cfg_rotation (config layer) * pi / 180),
         m_e = sz / 2 + cfg_x (config layer),
         m_f = sz / 2 + cfg_y (config layer)\<rparr>,
      op_alpha = cfg_opacity (config layer)\<rparr>]"
  using assms
  by (simp add: drawLayer_def Let_def newCtx_def identityMatrix_def ctx_save_def
      ctx_restore_def ctx_translate_def ctx_rotate_def ctx_scale_def ctx_drawImage_def
      mult.commute)

text \<open>
  C6 as stated fails: the sample point of the test layer lands at (42, 32), the canvas
  centre (32, 32) plus the offset (10, 0) as it is, and not at (32, 52).
\<close>

theorem drawLayer_sample_point_counterexample:
  "map opCentre (ops (drawLayer newCtx pixelLayer 0 64)) = [(42, 32)]
   \<and> map opCentre (ops (drawLayer newCtx pixelLayer 0 64)) \<noteq> [(64 / 2, 64 / 2 + 20)]"
proof -
  have v: "visible pixelLayer" and f: "frames pixelLayer \<noteq> []"
    by (simp_all add: pixelLayer_def)
  have "map opCentre (ops (drawLayer newCtx pixelLayer 0 64)) = [(42, 32)]"
    unfolding drawLayer_ops[OF v f]
    by (simp add: opCentre_def applyMatrix_def pixelLayer_def activeFrame_def)
  then show ?thesis by simp
qed

text \<open>
  C6, amended. \<open>drawLayer\<close> calls translate (canvas centre), translate (offset),
  rotate, scale in this order, and each call multiplies the matrix from the right.
  So a visible layer with a frame is drawn once, a point \<open>(u, v)\<close> of the image's
  coordinate system lands at canvas centre + offset + rotation (scale * (u, v)), and the
  sample point (the image centre) lands at canvas centre + offset, whatever the rotation
  and the scale: rotation and scale act about the translated origin. For the test layer
  this is (center.x + 10, center.y), neither (center.x, center.y + 20) nor
  (center.x + 20, center.y).
\<close>

theorem drawLayer_translate_rotate_scale:
  assumes "visible layer" and "frames layer \<noteq> []"
  shows "\<exists>d. ops (drawLayer newCtx layer time sz) = [d]
     \<and> op_image d = image (activeFrame (frames layer) time)
     \<and> opCentre d = (sz / 2 + cfg_x (config layer), sz / 2 + cfg_y (config layer))
     \<and> (\<forall>u v. applyMatrix (op_matrix d) (u, v) =
           (sz / 2 + cfg_x (config layer)
              + cfg_scale (config layer)
                * (u * cos (cfg_rotation (config layer) * pi / 180)
                   - v * sin (cfg_rotation (config layer) * pi / 180)),
            sz / 2 + cfg_y (config layer)
              + cfg_scale (config layer)
                * (u * sin (cfg_rotation (config layer) * pi / 180)
                   + v * cos (cfg_rotation (config layer) * pi / 180))))"
  unfolding drawLayer_ops[OF assms]
  by (simp add: opCentre_def applyMatrix_def algebra_simps)

theorem drawLayer_translate_rotate_scale_witness:
  "visible pixelLayer \<and> frames pixelLayer \<noteq> []
   \<and> (\<exists>d. ops (drawLayer newCtx pixelLayer 0 64) = [d]
        \<and> opCentre d = (64 / 2 + 10, 64 / 2)
        \<and> opCentre d \<noteq> (64 / 2, 64 / 2 + 20)
        \<and> opCentre d \<noteq> (64 / 2 + 20, 64 / 2)
        \<and> applyMatrix (op_matrix d) (1 / 2, 1 / 2) = (41, 33))"
proof -
  have v: "visible pixelLayer" and f: "frames pixelLayer \<noteq> []"
    by (simp_all add: pixelLayer_def)
  from drawLayer_translate_rotate_scale[OF v f, of 0 64]
  obtain d where d: "ops (drawLayer newCtx pixelLayer 0 64) = [d]"
    "opCentre d = (64 / 2 + cfg_x (config pixelLayer), 64 / 2 + cfg_y (config pixelLayer))"
    "applyMatrix (op_matrix d) (1 / 2, 1 / 2) =
           (64 / 2 + cfg_x (config pixelLayer)
              + cfg_scale (config pixelLayer)
                * (1 / 2 * cos (cfg_rotation (config pixelLayer) * pi / 180)
                   - 1 / 2 * sin (cfg_rotation (config pixelLayer) * pi / 180)),
            64 / 2 + cfg_y (config pixelLayer)
              + cfg_scale (config pixelLayer)
                * (1 / 2 * sin (cfg_rotation (config pixelLayer) * pi / 180)
                   + 1 / 2 * cos (cfg_rotation (config pixelLayer) * pi / 180)))"
    by blast
  have c: "opCentre d = (64 / 2 + 10, 64 / 2)" using d(2) by (simp add: pixelLayer_def)
  have a: "applyMatrix (op_matrix d) (1 / 2, 1 / 2) = (41, 33)"
    unfolding d(3) by (simp add: pixelLayer_def)
  from v f d(1) c a show ?thesis by auto
qed

section \<open>The cursor file layout\<close>

lemma replicate_22: "replicate (22 + n) (0::byte) =
   [0,0,0,0,0,0,0,0,0,0,0,0,0,0,0,0,0,0,0,0,0,0] @ replicate n 0"
  by (simp add: replicate_add eval_nat_numeral)

lemma le16_word_of_int:
  "uint (word_of_int v :: byte) + 256 * uint (word_of_int (v div 256) :: byte) = v mod 65536"
proof -
  have "v mod (256 * 256) = 256 * (v div 256 mod 256) + v mod 256"
    by (rule zmod_zmult2_eq) simp
  then show ?thesis by (simp add: uint_word_of_int take_bit_eq_mod)
qed

lemma le32_word_of_int:
  "uint (word_of_int v :: byte) + 256 * uint (word_of_int (v div 256) :: byte)
     + 65536 * uint (word_of_int (v div 65536) :: byte)
     + 16777216 * uint (word_of_int (v div 16777216) :: byte) = v mod 4294967296"
proof -
  have a: "v mod (65536 * 65536) = 65536 * (v div 65536 mod 65536) + v mod 65536"
    by (rule zmod_zmult2_eq) simp
  have b: "v mod 65536 = uint (word_of_int v :: byte) + 256 * uint (word_of_int (v div 256) :: byte)"
    by (rule le16_word_of_int[symmetric])
  have c: "(v div 65536) mod 65536 = uint (word_of_int (v div 65536) :: byte)
       + 256 * uint (word_of_int (v div 65536 div 256) :: byte)"
    by (rule le16_word_of_int[symmetric])
  have d: "v div 65536 div 256 = v div 16777216"
    by (simp add: zdiv_zmult2_eq[symmetric])
  from a b c d show ?thesis by simp
qed

lemma length_setUint [simp]:
  "length (setUint8 off v buf) = length buf"
  "length (setUint16 off v buf) = length buf"
  "length (setUint32 off v buf) = length buf"
  by (simp_all add: setUint8_def setUint16_def setUint32_def)

lemma setUint_append:
  "off < length xs \<Longrightarrow> setUint8 off v (xs @ ys) = setUint8 off v xs @ ys"
  "off + 1 < length xs \<Longrightarrow> setUint16 off v (xs @ ys) = setUint16 off v xs @ ys"
  "off + 3 < length xs \<Longrightarrow> setUint32 off v (xs @ ys) = setUint32 off v xs @ ys"
  by (simp_all add: setUint8_def setUint16_def setUint32_def list_update_append)

lemma cur_header_eval:
  "setUint32 18 22 (setUint32 14 s (setUint16 12 y (setUint16 10 x
     (setUint8 9 0 (setUint8 8 0 (setUint8 7 w (setUint8 6 w
       (setUint16 4 1 (setUint16 2 2 (setUint16 0 0
          [0,0,0,0,0,0,0,0,0,0,0,0,0,0,0,0,0,0,0,0,0,0])))))))))) =
   [0, 0, 2, 0, 1, 0, word_of_int w, word_of_int w, 0, 0,
    word_of_int x, word_of_int (x div 256), word_of_int y, word_of_int (y div 256),
    word_of_int s, word_of_int (s div 256), word_of_int (s div 65536),
    word_of_int (s div 16777216), 22, 0, 0, 0]"
  by (simp add: setUint8_def setUint16_def setUint32_def eval_nat_numeral)

lemma cur_header_append:
  "length z = 22 \<Longrightarrow>
   setUint32 18 c (setUint32 14 s (setUint16 12 y (setUint16 10 x
     (setUint8 9 b (setUint8 8 a (setUint8 7 w (setUint8 6 w
       (setUint16 4 k (setUint16 2 j (setUint16 0 i (z @ r))))))))))) =
   setUint32 18 c (setUint32 14 s (setUint16 12 y (setUint16 10 x
     (setUint8 9 b (setUint8 8 a (setUint8 7 w (setUint8 6 w
       (setUint16 4 k (setUint16 2 j (setUint16 0 i z)))))))))) @ r"
  by (simp add: setUint_append)

lemma curBlob_eq:
  "curBlob outSize hs p =
     [0, 0, 2, 0, 1, 0,
      word_of_int (if outSize \<ge> 256 then 0 else outSize),
      word_of_int (if outSize \<ge> 256 then 0 else outSize), 0, 0,
      word_of_int (hot_x hs), word_of_int (hot_x hs div 256),
      word_of_int (hot_y hs), word_of_int (hot_y hs div 256),
      word_of_int (int (length p)), word_of_int (int (length p) div 256),
      word_of_int (int (length p) div 65536), word_of_int (int (length p) div 16777216),
      22, 0, 0, 0] @ p"
proof -
  let ?z = "[0,0,0,0,0,0,0,0,0,0,0,0,0,0,0,0,0,0,0,0,0,0] :: byte list"
  let ?w = "if outSize \<ge> 256 then 0 else outSize"
  let ?h = "setUint32 18 22 (setUint32 14 (int (length p)) (setUint16 12 (hot_y hs)
     (setUint16 10 (hot_x hs) (setUint8 9 0 (setUint8 8 0 (setUint8 7 ?w (setUint8 6 ?w
       (setUint16 4 1 (setUint16 2 2 (setUint16 0 0 ?z))))))))))"
  have len: "length ?h = 22" by simp
  have z: "length ?z = 22" by simp
  have "curBlob outSize hs p = setBytes p 22 (?h @ replicate (length p) 0)"
    unfolding curBlob_def Let_def replicate_22 cur_header_append[OF z] ..
  also have "\<dots> = ?h @ p" using len by (simp add: setBytes_def)
  finally show ?thesis unfolding cur_header_eval .
qed

section \<open>Rates of the export\<close>

lemma fl_16666: "fl 16.666 = 4691061961859793 / 2 ^ 48"
  by (subst fl_eval[where k = 4 and e = "- 48"]) (simp_all add: rne_def power_int_minus)

lemma rateOf_values:
  "rateOf 100 = 6" "rateOf 150 = 9" "rateOf 200 = 12" "rateOf 250 = 15"
proof -
  show "rateOf 100 = 6"
    unfolding rateOf_def fl_16666
    by (subst fl_eval[where k = 2 and e = "- 50"])
      (simp_all add: rne_def power_int_minus round_def)
  show "rateOf 150 = 9"
    unfolding rateOf_def fl_16666
    by (subst fl_eval[where k = 3 and e = "- 49"])
      (simp_all add: rne_def power_int_minus round_def)
  show "rateOf 200 = 12"
    unfolding rateOf_def fl_16666
    by (subst fl_eval[where k = 3 and e = "- 49"])
      (simp_all add: rne_def power_int_minus round_def)
  show "rateOf 250 = 15"
    unfolding rateOf_def fl_16666
    by (subst fl_eval[where k = 3 and e = "- 49"])
      (simp_all add: rne_def power_int_minus round_def)
qed

section \<open>The export loop\<close>

lemma pickMaster_fold_snd:
  "snd acc \<noteq> None \<Longrightarrow> snd (foldl pickMaster acc ls) \<noteq> None"
  by (induction ls arbitrary: acc) (auto simp: pickMaster_def)

lemma findMaster_Some: "ls \<noteq> [] \<Longrightarrow> \<exists>m. snd (findMaster ls) = Some m"
proof -
  assume "ls \<noteq> []"
  then have "snd (1::nat, case ls of [] \<Rightarrow> None | l # _ \<Rightarrow> Some l) \<noteq> None"
    by (cases ls) auto
  from pickMaster_fold_snd[OF this] show ?thesis by (auto simp: findMaster_def)
qed

lemma pickMaster_fold_fst:
  "fst (foldl pickMaster acc ls) = fold max (map (\<lambda>l. length (frames l)) ls) (fst acc)"
proof (induction ls arbitrary: acc)
  case Nil
  then show ?case by simp
next
  case (Cons l ls)
  have "fst (pickMaster acc l) = max (length (frames l)) (fst acc)"
    by (simp add: pickMaster_def max_def)
  then show ?case using Cons.IH[of "pickMaster acc l"] by simp
qed

lemma findMaster_count: "fst (findMaster ls) = specFrameCount ls"
proof -
  let ?S = "set (map (\<lambda>l. length (frames l)) ls)"
  have "fst (findMaster ls) = Max (set (1 # map (\<lambda>l. length (frames l)) ls))"
    unfolding Max.set_eq_fold by (simp add: findMaster_def pickMaster_fold_fst)
  then have f: "fst (findMaster ls) = Max (insert 1 ?S)" by simp
  show ?thesis
  proof (cases "list_all (\<lambda>l. frames l = []) ls")
    case True
    then have "?S \<subseteq> {0}" by (auto simp: list_all_iff)
    then have "\<forall>y\<in>insert 1 ?S. y \<le> 1" by auto
    then have "Max (insert 1 ?S) = 1" by (intro Max_eqI) auto
    with f True show ?thesis by (simp add: specFrameCount_def)
  next
    case False
    then obtain l where l: "l \<in> set ls" "frames l \<noteq> []" by (auto simp: list_all_iff)
    then have ne: "?S \<noteq> {}" and "length (frames l) \<in> ?S" by auto
    then have "length (frames l) \<le> Max ?S" by (intro Max_ge) auto
    moreover have "1 \<le> length (frames l)" using l(2) by (cases "frames l") auto
    ultimately have "1 \<le> Max ?S" by linarith
    then have "Max (insert 1 ?S) = Max ?S" using ne by (simp add: max_def)
    with f False show ?thesis by (simp add: specFrameCount_def)
  qed
qed

lemma exportStep_Some:
  "exportStep env fmt st (Some m) j (ctx, bs, rs) =
     Inr (renderStack ctx st (exportTime m j),
          (case toBlob env (outputSize st) (ops (renderStack ctx st (exportTime m j))) of
             None \<Rightarrow> bs
           | Some p \<Rightarrow> bs @ [if fmt = PNG \<and> j = 0 then p
                             else curBlob (outputSize st) (hotspot st) p]),
          rs @ [rateOf (exportDelay m j)])"
  by (auto simp: exportStep_def Let_def split: option.splits)

lemma exportLoop_rates:
  "\<exists>ctx' bs'. exportLoop (exportStep env fmt st (Some m)) js (ctx, bs, rs) =
       Inr (ctx', bs', rs @ map (\<lambda>i. rateOf (exportDelay m i)) js)
     \<and> length bs' \<le> length bs + length js
     \<and> ((\<forall>ds. toBlob env (outputSize st) ds \<noteq> None) \<longrightarrow>
           length bs' = length bs + length js)"
proof (induction js arbitrary: ctx bs rs)
  case Nil
  then show ?case by simp
next
  case (Cons j js)
  let ?c = "renderStack ctx st (exportTime m j)"
  let ?b = "case toBlob env (outputSize st) (ops ?c) of
             None \<Rightarrow> bs
           | Some p \<Rightarrow> bs @ [if fmt = PNG \<and> j = 0 then p
                             else curBlob (outputSize st) (hotspot st) p]"
  have b1: "length ?b \<le> length bs + 1" by (simp split: option.splits)
  have b2: "(\<forall>ds. toBlob env (outputSize st) ds \<noteq> None) \<longrightarrow> length ?b = length bs + 1"
    by (auto split: option.splits)
  from Cons.IH[of ?c ?b "rs @ [rateOf (exportDelay m j)]"]
  obtain c2 b2' where r: "exportLoop (exportStep env fmt st (Some m)) js
        (?c, ?b, rs @ [rateOf (exportDelay m j)]) =
       Inr (c2, b2', (rs @ [rateOf (exportDelay m j)]) @ map (\<lambda>i. rateOf (exportDelay m i)) js)"
     "length b2' \<le> length ?b + length js"
     "(\<forall>ds. toBlob env (outputSize st) ds \<noteq> None) \<longrightarrow> length b2' = length ?b + length js"
    by blast
  have e: "exportLoop (exportStep env fmt st (Some m)) (j # js) (ctx, bs, rs) =
      Inr (c2, b2', rs @ map (\<lambda>i. rateOf (exportDelay m i)) (j # js))"
    using r(1) by (simp add: exportStep_Some)
  have l1: "length b2' \<le> length bs + length (j # js)" using r(2) b1 by simp
  have l2: "(\<forall>ds. toBlob env (outputSize st) ds \<noteq> None) \<longrightarrow>
      length b2' = length bs + length (j # js)" using r(3) b2 by simp
  from e l1 l2 show ?case by blast
qed

lemma generateExportBlob_counts:
  assumes "hasContext env" and "layers st \<noteq> []"
  shows "\<exists>r m. generateExportBlob env fmt st = Inr (Some r)
      \<and> snd (findMaster (layers st)) = Some m
      \<and> rates r = map (\<lambda>i. rateOf (exportDelay m i))
                    [0..<(if fmt = ANI then specFrameCount (layers st) else 1)]
      \<and> length (blobs r) \<le> length (rates r)
      \<and> ((\<forall>ds. toBlob env (outputSize st) ds \<noteq> None) \<longrightarrow>
            length (blobs r) = length (rates r))"
proof -
  obtain m where m: "snd (findMaster (layers st)) = Some m"
    using findMaster_Some[OF assms(2)] by blast
  let ?n = "if fmt = ANI then specFrameCount (layers st) else 1"
  have fm: "findMaster (layers st) = (specFrameCount (layers st), Some m)"
    using m findMaster_count[of "layers st"] by (cases "findMaster (layers st)") auto
  from exportLoop_rates[of env fmt st m "[0..<?n]" newCtx "[]" "[]"]
  obtain c b where l: "exportLoop (exportStep env fmt st (Some m)) [0..<?n] (newCtx, [], []) =
       Inr (c, b, map (\<lambda>i. rateOf (exportDelay m i)) [0..<?n])"
     "length b \<le> length [0..<?n]"
     "(\<forall>ds. toBlob env (outputSize st) ds \<noteq> None) \<longrightarrow> length b = length [0..<?n]"
    by auto
  have "generateExportBlob env fmt st =
      Inr (Some \<lparr>blobs = b, rates = map (\<lambda>i. rateOf (exportDelay m i)) [0..<?n]\<rparr>)"
    using assms(1) fm l(1) by (simp add: generateExportBlob_def)
  with m l(2,3) show ?thesis by auto
qed

text \<open>
  C2. With a 2D context, a non-empty stack and an encoder that delivers bytes for every
  frame, the export returns as many frame blobs as rate entries: for ANI the greatest
  frame count over the layers (and 1 when every layer is empty), for CUR and PNG exactly
  one. Frame counts 1, 4, 2 give 4.
\<close>

theorem export_frame_count:
  "(\<forall>env fmt st.
      hasContext env \<and> layers st \<noteq> [] \<and> (\<forall>ds. toBlob env (outputSize st) ds \<noteq> None) \<longrightarrow>
      (\<exists>r. generateExportBlob env fmt st = Inr (Some r)
           \<and> length (blobs r) = (if fmt = ANI then specFrameCount (layers st) else 1)
           \<and> length (rates r) = length (blobs r)))
   \<and> (\<forall>ls. map (\<lambda>l. length (frames l)) ls = [1, 4, 2] \<longrightarrow> specFrameCount ls = 4)
   \<and> (\<forall>ls. list_all (\<lambda>l. frames l = []) ls \<longrightarrow> specFrameCount ls = 1)
   \<and> (\<forall>ls. \<not> list_all (\<lambda>l. frames l = []) ls \<longrightarrow>
         specFrameCount ls = Max (set (map (\<lambda>l. length (frames l)) ls))
         \<and> (\<forall>l\<in>set ls. length (frames l) \<le> specFrameCount ls)
         \<and> (\<exists>l\<in>set ls. length (frames l) = specFrameCount ls))"
proof -
  have a: "\<exists>r. generateExportBlob env fmt st = Inr (Some r)
           \<and> length (blobs r) = (if fmt = ANI then specFrameCount (layers st) else 1)
           \<and> length (rates r) = length (blobs r)"
    if h: "hasContext env \<and> layers st \<noteq> [] \<and> (\<forall>ds. toBlob env (outputSize st) ds \<noteq> None)"
    for env fmt st
  proof -
    from h have c: "hasContext env" and n: "layers st \<noteq> []" by simp_all
    from generateExportBlob_counts[OF c n, of fmt] h show ?thesis by auto
  qed
  have b: "specFrameCount ls = 4" if h: "map (\<lambda>l. length (frames l)) ls = [1, 4, 2]" for ls
  proof -
    from h obtain l1 l2 l3 where ls: "ls = [l1, l2, l3]" by auto
    with h show ?thesis by (auto simp: specFrameCount_def)
  qed
  have c: "specFrameCount ls = 1" if "list_all (\<lambda>l. frames l = []) ls" for ls
    using that by (simp add: specFrameCount_def)
  have d: "specFrameCount ls = Max (set (map (\<lambda>l. length (frames l)) ls))
         \<and> (\<forall>l\<in>set ls. length (frames l) \<le> specFrameCount ls)
         \<and> (\<exists>l\<in>set ls. length (frames l) = specFrameCount ls)"
    if h: "\<not> list_all (\<lambda>l. frames l = []) ls" for ls
  proof -
    let ?S = "set (map (\<lambda>l. length (frames l)) ls)"
    have e: "specFrameCount ls = Max ?S" using h by (simp add: specFrameCount_def)
    have ne: "?S \<noteq> {}" using h by (cases ls) auto
    have "Max ?S \<in> ?S" using ne by (intro Max_in) auto
    then have ex: "\<exists>l\<in>set ls. length (frames l) = Max ?S" by auto
    have "\<forall>l\<in>set ls. length (frames l) \<le> Max ?S" by (auto intro!: Max_ge)
    with e ex show ?thesis by simp
  qed
  from a b c d show ?thesis by blast
qed

theorem export_frame_count_witness:
  "hasContext goodEnv \<and> layers (mkState stack_1_4_2) \<noteq> []
   \<and> (\<forall>ds. toBlob goodEnv (outputSize (mkState stack_1_4_2)) ds \<noteq> None)
   \<and> map (\<lambda>l. length (frames l)) stack_1_4_2 = [1, 4, 2]
   \<and> (\<exists>r. generateExportBlob goodEnv ANI (mkState stack_1_4_2) = Inr (Some r)
          \<and> length (blobs r) = 4 \<and> length (rates r) = 4)
   \<and> (\<exists>r. generateExportBlob goodEnv CUR (mkState stack_1_4_2) = Inr (Some r)
          \<and> length (blobs r) = 1)
   \<and> (\<exists>r. generateExportBlob goodEnv PNG (mkState stack_1_4_2) = Inr (Some r)
          \<and> length (blobs r) = 1)"
proof -
  have h: "hasContext goodEnv \<and> layers (mkState stack_1_4_2) \<noteq> []
     \<and> (\<forall>ds. toBlob goodEnv (outputSize (mkState stack_1_4_2)) ds \<noteq> None)"
    by (simp add: goodEnv_def mkState_def stack_1_4_2_def)
  have m: "map (\<lambda>l. length (frames l)) stack_1_4_2 = [1, 4, 2]"
    by (simp add: stack_1_4_2_def mkLayer_def)
  have l: "layers (mkState stack_1_4_2) = stack_1_4_2" by (simp add: mkState_def)
  have n: "specFrameCount (layers (mkState stack_1_4_2)) = 4"
    using export_frame_count[THEN conjunct2, THEN conjunct1, rule_format, OF m] l by simp
  note g = export_frame_count[THEN conjunct1, rule_format, OF h]
  from g[of ANI] g[of CUR] g[of PNG] n h m show ?thesis by auto
qed

lemma pickMaster_fold_dominant:
  "snd (foldl pickMaster (n, m) ls) =
     (if \<exists>l\<in>set ls. n < length (frames l) then dominantLayer ls else m)"
proof (induction ls arbitrary: n m)
  case Nil
  then show ?case by simp
next
  case (Cons l ls)
  let ?len = "\<lambda>l. length (frames l)"
  let ?S = "set (map ?len ls)"
  have fin: "finite ?S" by simp
  have mx: "Max (set (map ?len (l # ls))) = (if ls = [] then ?len l else max (?len l) (Max ?S))"
    by (cases ls) (simp_all del: set_map)
  show ?case
  proof (cases "n < ?len l")
    case True
    then have step: "pickMaster (n, m) l = (?len l, Some l)" by (simp add: pickMaster_def)
    show ?thesis
    proof (cases "\<exists>k\<in>set ls. ?len l < ?len k")
      case ex: True
      then obtain k where k: "k \<in> set ls" "?len l < ?len k" by blast
      then have ne: "ls \<noteq> []" by auto
      have "?len k \<le> Max ?S" using k(1) by (intro Max_ge) auto
      then have gt: "?len l < Max ?S" using k(2) by linarith
      then have "Max (set (map ?len (l # ls))) = Max ?S" using mx ne by (simp add: max_def)
      then have "dominantLayer (l # ls) = dominantLayer ls"
        using gt by (simp add: dominantLayer_def del: set_map)
      with Cons.IH[of "?len l" "Some l"] step ex True show ?thesis by auto
    next
      case nex: False
      then have le: "\<forall>k\<in>set ls. ?len k \<le> ?len l" by (auto simp: not_less)
      have "Max (set (map ?len (l # ls))) = ?len l"
        by (rule Max_eqI) (use le in auto)
      then have "dominantLayer (l # ls) = Some l"
        by (simp add: dominantLayer_def del: set_map)
      with Cons.IH[of "?len l" "Some l"] step nex True show ?thesis by auto
    qed
  next
    case False
    then have step: "pickMaster (n, m) l = (n, m)" by (simp add: pickMaster_def)
    show ?thesis
    proof (cases "\<exists>k\<in>set ls. n < ?len k")
      case ex: True
      then obtain k where k: "k \<in> set ls" "n < ?len k" by blast
      then have ne: "ls \<noteq> []" by auto
      have "?len k \<le> Max ?S" using k(1) by (intro Max_ge) auto
      then have gt: "?len l < Max ?S" using k(2) False by linarith
      then have "Max (set (map ?len (l # ls))) = Max ?S" using mx ne by (simp add: max_def)
      then have "dominantLayer (l # ls) = dominantLayer ls"
        using gt by (simp add: dominantLayer_def del: set_map)
      with Cons.IH[of n m] step ex show ?thesis by auto
    next
      case nex: False
      with Cons.IH[of n m] step False show ?thesis by auto
    qed
  qed
qed

text \<open>
  Where the master layer is the dominant layer: whenever some layer has at least two
  frames, or the first layer is not empty.
\<close>

lemma findMaster_dominant:
  assumes "ls \<noteq> []"
    and "frames (hd ls) \<noteq> [] \<or> (\<exists>l\<in>set ls. 2 \<le> length (frames l))"
  shows "snd (findMaster ls) = dominantLayer ls"
proof -
  let ?len = "\<lambda>l. length (frames l)"
  obtain l0 rest where ls: "ls = l0 # rest" using assms(1) by (cases ls) auto
  have f: "snd (findMaster ls) =
      (if \<exists>l\<in>set ls. 1 < ?len l then dominantLayer ls else Some l0)"
    using pickMaster_fold_dominant[of 1 "Some l0" ls] ls by (simp add: findMaster_def)
  show ?thesis
  proof (cases "\<exists>l\<in>set ls. 1 < ?len l")
    case True
    with f show ?thesis by simp
  next
    case False
    then have le: "\<forall>l\<in>set ls. ?len l \<le> 1" by (auto simp: not_less)
    from False assms(2) ls have "?len l0 = 1"
      using le by (cases "frames l0") (auto simp: not_less)
    then have "Max (set (map ?len ls)) = ?len l0"
      using le ls by (intro Max_eqI) auto
    then have "dominantLayer ls = Some l0"
      using ls by (simp add: dominantLayer_def del: set_map)
    with f False show ?thesis by simp
  qed
qed

lemma generateExportBlob_empty_stack:
  "hasContext env \<Longrightarrow> layers st = [] \<Longrightarrow> generateExportBlob env fmt st = Inl TypeError"
  by (simp add: generateExportBlob_def findMaster_def exportStep_def)

text \<open>
  C3 (the code departs from the claim). The Base layer is empty and the overlay above
  it has one frame of 250 ms. The overlay is the layer with the greatest frame count,
  but it does not have more than 1 frame, so the master layer stays the empty first
  layer: the export takes the default delay of 100 ms (rate 6) and not the overlay's
  250 ms (rate 15).
\<close>

theorem export_master_layer_empty_first:
  "map (\<lambda>l. length (frames l)) stack_empty_then_single = [0, 1]
   \<and> map delay (frames (stack_empty_then_single ! 1)) = [250]
   \<and> findMaster stack_empty_then_single = (1, Some createBaseLayer)
   \<and> dominantLayer stack_empty_then_single = Some (stack_empty_then_single ! 1)
   \<and> exportDelay createBaseLayer 0 = 100
   \<and> exportDelay (stack_empty_then_single ! 1) 0 = 250
   \<and> (\<exists>r. generateExportBlob goodEnv ANI (mkState stack_empty_then_single) = Inr (Some r)
          \<and> rates r = [6] \<and> length (blobs r) = 1)
   \<and> rateOf 250 = 15"
proof -
  have c: "hasContext goodEnv" by (simp add: goodEnv_def)
  have n: "layers (mkState stack_empty_then_single) \<noteq> []"
    by (simp add: mkState_def stack_empty_then_single_def)
  have f: "findMaster stack_empty_then_single = (1, Some createBaseLayer)"
    by (simp add: findMaster_def stack_empty_then_single_def pickMaster_def mkLayer_def
        createBaseLayer_def)
  have s: "specFrameCount (layers (mkState stack_empty_then_single)) = 1"
    using findMaster_count[of stack_empty_then_single] f by (simp add: mkState_def)
  have d: "exportDelay createBaseLayer 0 = 100"
    by (simp add: exportDelay_def createBaseLayer_def)
  have t: "\<forall>ds. toBlob goodEnv (outputSize (mkState stack_empty_then_single)) ds \<noteq> None"
    by (simp add: goodEnv_def)
  from generateExportBlob_counts[OF c n, of ANI] f s d t
  have g: "\<exists>r. generateExportBlob goodEnv ANI (mkState stack_empty_then_single) = Inr (Some r)
          \<and> rates r = [6] \<and> length (blobs r) = 1"
    by (auto simp: mkState_def rateOf_values)
  have o: "map (\<lambda>l. length (frames l)) stack_empty_then_single = [0, 1]
     \<and> map delay (frames (stack_empty_then_single ! 1)) = [250]
     \<and> exportDelay (stack_empty_then_single ! 1) 0 = 250"
    by (simp add: stack_empty_then_single_def createBaseLayer_def mkLayer_def mkFrame_def
        exportDelay_def)
  have r: "rateOf 250 = 15" by (rule rateOf_values)
  have m: "dominantLayer stack_empty_then_single = Some (stack_empty_then_single ! 1)"
    by (simp add: dominantLayer_def stack_empty_then_single_def createBaseLayer_def
        mkLayer_def)
  from o f d g r m show ?thesis by simp
qed

text \<open>
  C4 (the code departs from the claim). The encoder delivers no bytes for the second of
  two frames. The export does not abort: it returns one frame blob and two rate
  entries, the second one for the frame that was dropped.
\<close>

theorem export_keeps_rate_of_dropped_frame:
  "generateExportBlob flakyEnv ANI (mkState stack_two_frames) =
     Inr (Some \<lparr>blobs = [curBlob 32 \<lparr>hot_x = 5, hot_y = 7\<rparr> pngSig], rates = [6, 9]\<rparr>)
   \<and> length [curBlob 32 \<lparr>hot_x = 5, hot_y = 7\<rparr> pngSig] \<noteq> length [6, 9 :: int]
   \<and> (\<exists>w. aniChunkWalk (aniFileBytes
              \<lparr>blobs = [curBlob 32 \<lparr>hot_x = 5, hot_y = 7\<rparr> pngSig], rates = [6, 9]\<rparr>)
            = Some (Inr w)
          \<and> length (w_iconChunks w) = 1 \<and> length (w_rates w) = 2)"
proof -
  have fl: "aniChunkWalk (aniFileBytes
              \<lparr>blobs = [curBlob 32 \<lparr>hot_x = 5, hot_y = 7\<rparr> pngSig], rates = [6, 9]\<rparr>)
     = Some (Inr \<lparr>w_pos = 118, w_defaultRate = 60, w_rates = [6, 9],
                  w_iconChunks = [curBlob 32 \<lparr>hot_x = 5, hot_y = 7\<rparr> pngSig]\<rparr>)"
    by code_simp
  let ?m = "mkLayer ''a'' [mkFrame 0 100, mkFrame 1 150]"
  let ?st = "mkState stack_two_frames"
  have f: "findMaster (layers ?st) = (2, Some ?m)"
    by (simp add: findMaster_def stack_two_frames_def pickMaster_def mkLayer_def mkState_def)
  have t0: "exportTime ?m 0 = 0" and t1: "exportTime ?m 1 = 100"
    by (simp_all add: exportTime_def mkLayer_def mkFrame_def fl_numeral)
  have a0: "activeFrame [mkFrame 0 100, mkFrame 1 150] 0 = mkFrame 0 100"
    and a1: "activeFrame [mkFrame 0 100, mkFrame 1 150] 100 = mkFrame 1 150"
    by (simp_all add: activeFrame_def totalDelay_def js_rem_def js_trunc_def mkFrame_def
        fl_numeral fl_zero)
  have v: "visible ?m" "frames ?m \<noteq> []" by (simp_all add: mkLayer_def)
  have r: "map (\<lambda>d. img_src (op_image d)) (ops (renderStack c ?st t)) =
      [img_src (image (activeFrame [mkFrame 0 100, mkFrame 1 150] t))]" for c t
    using v
    by (simp add: renderStack_def mkState_def stack_two_frames_def drawLayer_def Let_def
        ctx_clearAll_def ctx_save_def ctx_restore_def ctx_translate_def ctx_rotate_def
        ctx_scale_def ctx_drawImage_def mkLayer_def)
  have e: "list_ex (\<lambda>d. img_src (op_image d) = 1) ds
      = list_ex (\<lambda>n. n = 1) (map (\<lambda>d. img_src (op_image d)) ds)" for ds :: "DrawOp list"
    by (induction ds) auto
  have l0: "\<not> list_ex (\<lambda>d. img_src (op_image d) = 1) (ops (renderStack c ?st 0))" for c
    unfolding e r a0 by (simp add: mkFrame_def)
  have l1: "list_ex (\<lambda>d. img_src (op_image d) = 1) (ops (renderStack c ?st 100))" for c
    unfolding e r a1 by (simp add: mkFrame_def)
  have b0: "toBlob flakyEnv 32 (ops (renderStack c ?st 0)) = Some pngSig" for c
    using l0[of c] by (simp add: flakyEnv_def)
  have b1: "toBlob flakyEnv 32 (ops (renderStack c ?st 100)) = None" for c
    using l1[of c] by (simp add: flakyEnv_def)
  have o: "outputSize ?st = 32" "hotspot ?st = \<lparr>hot_x = 5, hot_y = 7\<rparr>"
    by (simp_all add: mkState_def)
  have d: "rateOf (exportDelay ?m 0) = 6" "rateOf (exportDelay ?m 1) = 9"
    by (simp_all add: exportDelay_def mkLayer_def mkFrame_def rateOf_values)
  have u: "[0..<2] = [0, 1]" by (simp add: upt_rec)
  have "exportLoop (exportStep flakyEnv ANI ?st (Some ?m)) [0, 1] (newCtx, [], []) =
      Inr (renderStack (renderStack newCtx ?st 0) ?st 100,
           [curBlob 32 \<lparr>hot_x = 5, hot_y = 7\<rparr> pngSig], [6, 9])"
    using t0 t1 b0[of newCtx] b1[of "renderStack newCtx ?st 0"] o d
    by (simp add: exportStep_Some)
  then have "generateExportBlob flakyEnv ANI (mkState stack_two_frames) =
     Inr (Some \<lparr>blobs = [curBlob 32 \<lparr>hot_x = 5, hot_y = 7\<rparr> pngSig], rates = [6, 9]\<rparr>)"
    using f u by (simp add: generateExportBlob_def flakyEnv_def)
  then show ?thesis unfolding fl by simp
qed

text \<open>
  C7 as stated fails: with the hotspot (5, 7) the 16-bit field at byte offset 2 of the
  directory entry (offset 8 of the file) holds 0, not the hotspot's x, and the field at
  byte offset 4 of the entry (offset 10 of the file) holds the hotspot's x, not its y.
\<close>

theorem curBlob_hotspot_offset_counterexample:
  "getUint16 (curBlob 32 \<lparr>hot_x = 5, hot_y = 7\<rparr> pngSig) (6 + 2) = Inr 0
   \<and> getUint16 (curBlob 32 \<lparr>hot_x = 5, hot_y = 7\<rparr> pngSig) (6 + 4) = Inr 5
   \<and> getUint16 (curBlob 32 \<lparr>hot_x = 5, hot_y = 7\<rparr> pngSig) (6 + 2)
        \<noteq> Inr (hot_x \<lparr>hot_x = 5, hot_y = 7\<rparr>)
   \<and> getUint16 (curBlob 32 \<lparr>hot_x = 5, hot_y = 7\<rparr> pngSig) (6 + 4)
        \<noteq> Inr (hot_y \<lparr>hot_x = 5, hot_y = 7\<rparr>)"
  by (simp add: curBlob_eq getUint16_def pngSig_def)

text \<open>
  C7, amended. The cursor file is the 6-byte directory (0, 2, 1 as little-endian
  uint16), then a 16-byte entry: the width and height bytes (the output size when it is
  between 0 and 255, and 0 from 256 on), two zero bytes, the hotspot's x as a
  little-endian uint16 at byte offset 4 of the entry (offset 10 of the file), the
  hotspot's y at byte offset 6 of the entry (offset 12 of the file), the PNG length as
  a little-endian uint32, the image offset 22 as a little-endian uint32; the PNG bytes
  follow at offset 22. The 16-bit and 32-bit fields hold their value modulo the field
  width. A CUR export returns this file for the PNG the encoder delivered.
\<close>

theorem curBlob_layout:
  "length (curBlob outSize hs p) = 22 + length p
   \<and> getUint16 (curBlob outSize hs p) 0 = Inr 0
   \<and> getUint16 (curBlob outSize hs p) 2 = Inr 2
   \<and> getUint16 (curBlob outSize hs p) 4 = Inr 1
   \<and> (0 \<le> outSize \<and> outSize < 256 \<longrightarrow>
        uint (curBlob outSize hs p ! 6) = outSize \<and> uint (curBlob outSize hs p ! 7) = outSize)
   \<and> (256 \<le> outSize \<longrightarrow> curBlob outSize hs p ! 6 = 0 \<and> curBlob outSize hs p ! 7 = 0)
   \<and> curBlob outSize hs p ! 8 = 0 \<and> curBlob outSize hs p ! 9 = 0
   \<and> getUint16 (curBlob outSize hs p) (6 + 4) = Inr (hot_x hs mod 65536)
   \<and> getUint16 (curBlob outSize hs p) (6 + 6) = Inr (hot_y hs mod 65536)
   \<and> (0 \<le> hot_x hs \<and> hot_x hs < 65536 \<longrightarrow>
        getUint16 (curBlob outSize hs p) (6 + 4) = Inr (hot_x hs))
   \<and> (0 \<le> hot_y hs \<and> hot_y hs < 65536 \<longrightarrow>
        getUint16 (curBlob outSize hs p) (6 + 6) = Inr (hot_y hs))
   \<and> getUint32 (curBlob outSize hs p) (6 + 8) = Inr (int (length p) mod 4294967296)
   \<and> (length p < 4294967296 \<longrightarrow>
        getUint32 (curBlob outSize hs p) (6 + 8) = Inr (int (length p)))
   \<and> getUint32 (curBlob outSize hs p) (6 + 12) = Inr 22
   \<and> drop 22 (curBlob outSize hs p) = p
   \<and> (\<forall>env st. hasContext env \<and> layers st \<noteq> [] \<longrightarrow>
        (\<exists>r. generateExportBlob env CUR st = Inr (Some r)
           \<and> blobs r = (case toBlob env (outputSize st) (ops (renderStack newCtx st 0)) of
                          None \<Rightarrow> []
                        | Some q \<Rightarrow> [curBlob (outputSize st) (hotspot st) q])))"
proof -
  let ?c = "curBlob outSize hs p"
  have len: "length ?c = 22 + length p" by (simp add: curBlob_eq)
  have dir: "getUint16 ?c 0 = Inr 0 \<and> getUint16 ?c 2 = Inr 2 \<and> getUint16 ?c 4 = Inr 1"
    by (simp add: curBlob_eq getUint16_def)
  have w1: "0 \<le> outSize \<and> outSize < 256 \<longrightarrow> uint (?c ! 6) = outSize \<and> uint (?c ! 7) = outSize"
    by (simp add: curBlob_eq uint_word_of_int take_bit_eq_mod)
  have w2: "256 \<le> outSize \<longrightarrow> ?c ! 6 = 0 \<and> ?c ! 7 = 0"
    by (simp add: curBlob_eq)
  have z: "?c ! 8 = 0 \<and> ?c ! 9 = 0" by (simp add: curBlob_eq)
  have hx: "getUint16 ?c (6 + 4) = Inr (hot_x hs mod 65536)"
    using le16_word_of_int[of "hot_x hs"] by (simp add: curBlob_eq getUint16_def)
  have hy: "getUint16 ?c (6 + 6) = Inr (hot_y hs mod 65536)"
    using le16_word_of_int[of "hot_y hs"] by (simp add: curBlob_eq getUint16_def)
  have sz: "getUint32 ?c (6 + 8) = Inr (int (length p) mod 4294967296)"
    using le32_word_of_int[of "int (length p)"] by (simp add: curBlob_eq getUint32_def)
  have off: "getUint32 ?c (6 + 12) = Inr 22"
    by (simp add: curBlob_eq getUint32_def)
  have dr: "drop 22 ?c = p" by (simp add: curBlob_eq)
  have ex: "\<exists>r. generateExportBlob env CUR st = Inr (Some r)
           \<and> blobs r = (case toBlob env (outputSize st) (ops (renderStack newCtx st 0)) of
                          None \<Rightarrow> []
                        | Some q \<Rightarrow> [curBlob (outputSize st) (hotspot st) q])"
    if h: "hasContext env \<and> layers st \<noteq> []" for env st
  proof -
    from h obtain m where m: "snd (findMaster (layers st)) = Some m"
      using findMaster_Some by blast
    then have fm: "findMaster (layers st) = (fst (findMaster (layers st)), Some m)"
      by (cases "findMaster (layers st)") auto
    have t: "exportTime m 0 = 0" by (simp add: exportTime_def)
    have u: "[0..<1] = [0]" by simp
    show ?thesis
      using h
      apply (simp add: generateExportBlob_def)
      apply (subst fm)
      apply (simp add: exportStep_Some t split: option.splits)
      done
  qed
  from len dir w1 w2 z hx hy sz off dr ex show ?thesis by simp
qed

theorem curBlob_layout_witness:
  "hasContext goodEnv \<and> layers (mkState stack_two_frames) \<noteq> []
   \<and> (\<exists>r. generateExportBlob goodEnv CUR (mkState stack_two_frames) = Inr (Some r)
        \<and> blobs r = [curBlob 32 \<lparr>hot_x = 5, hot_y = 7\<rparr> pngSig])
   \<and> (0::int) \<le> 32 \<and> (32::int) < 256
   \<and> uint (curBlob 32 \<lparr>hot_x = 5, hot_y = 7\<rparr> pngSig ! 6) = 32
   \<and> uint (curBlob 32 \<lparr>hot_x = 5, hot_y = 7\<rparr> pngSig ! 7) = 32
   \<and> curBlob 300 \<lparr>hot_x = 5, hot_y = 7\<rparr> pngSig ! 6 = 0
   \<and> getUint16 (curBlob 32 \<lparr>hot_x = 5, hot_y = 7\<rparr> pngSig) 10 = Inr 5
   \<and> getUint16 (curBlob 32 \<lparr>hot_x = 5, hot_y = 7\<rparr> pngSig) 12 = Inr 7
   \<and> getUint32 (curBlob 32 \<lparr>hot_x = 5, hot_y = 7\<rparr> pngSig) 14 = Inr 4
   \<and> getUint32 (curBlob 32 \<lparr>hot_x = 5, hot_y = 7\<rparr> pngSig) 18 = Inr 22
   \<and> drop 22 (curBlob 32 \<lparr>hot_x = 5, hot_y = 7\<rparr> pngSig) = pngSig
   \<and> getUint16 (curBlob 32 \<lparr>hot_x = 500, hot_y = 500\<rparr> pngSig) 10 = Inr 500"
proof -
  have h: "hasContext goodEnv \<and> layers (mkState stack_two_frames) \<noteq> []"
    by (simp add: goodEnv_def mkState_def stack_two_frames_def)
  note a = curBlob_layout[of 32 "\<lparr>hot_x = 5, hot_y = 7\<rparr>" pngSig]
  note b = curBlob_layout[of 300 "\<lparr>hot_x = 5, hot_y = 7\<rparr>" pngSig]
  note c = curBlob_layout[of 32 "\<lparr>hot_x = 500, hot_y = 500\<rparr>" pngSig]
  have "\<forall>env st. hasContext env \<and> layers st \<noteq> [] \<longrightarrow>
        (\<exists>r. generateExportBlob env CUR st = Inr (Some r)
           \<and> blobs r = (case toBlob env (outputSize st) (ops (renderStack newCtx st 0)) of
                          None \<Rightarrow> []
                        | Some q \<Rightarrow> [curBlob (outputSize st) (hotspot st) q]))"
    using a by (elim conjE) assumption
  from this[rule_format, OF h]
  have e: "\<exists>r. generateExportBlob goodEnv CUR (mkState stack_two_frames) = Inr (Some r)
        \<and> blobs r = [curBlob 32 \<lparr>hot_x = 5, hot_y = 7\<rparr> pngSig]"
    by (simp add: goodEnv_def mkState_def)
  have l: "length pngSig = 4" by (simp add: pngSig_def)
  from a b c e h l show ?thesis by simp
qed

section \<open>The static file extractor\<close>

lemma isCurDirectory_iff:
  "isCurDirectory bytes \<longleftrightarrow> 4 \<le> length bytes \<and> take 4 bytes = [0, 0, 2, 0]"
proof (cases "4 \<le> length bytes")
  case True
  then obtain a b c d r where "bytes = a # b # c # d # r"
    by (cases bytes; simp; rename_tac x xs; case_tac xs; simp; rename_tac y ys;
        case_tac ys; simp; rename_tac z zs; case_tac zs; simp)
  then show ?thesis by (auto simp: isCurDirectory_def byteAt_def)
next
  case False
  then show ?thesis by (auto simp: isCurDirectory_def byteAt_def)
qed

lemma findPngStart_first:
  assumes "i + 8 < length bytes" and "bytes ! i = 0x89" and "bytes ! (i + 1) = 0x50"
    and "\<forall>j<i. \<not> (bytes ! j = 0x89 \<and> bytes ! (j + 1) = 0x50)"
  shows "findPngStart bytes = Some i"
proof -
  have "i < length [0..<length bytes - 8]" using assms(1) by simp
  moreover have "[0..<length bytes - 8] ! i = i" using assms(1) by simp
  moreover have "\<forall>j<i. [0..<length bytes - 8] ! j = j" using assms(1) by simp
  ultimately show ?thesis
    unfolding findPngStart_def find_Some_iff using assms(2,3,4)
    by (intro exI[of _ i]) simp
qed

text \<open>
  C8 as stated fails. An icon directory of type 1 is not recognised as a directory: the
  whole payload goes to the decoder as PNG, although the PNG signature sits at offset
  22. In a cursor directory the scan stops at the first pair 0x89, 0x50, here the
  length field at offset 14, before the PNG signature at offset 22.
\<close>

theorem staticBlob_counterexample:
  "take 4 icoPayload = [0, 0, 1, 0]
   \<and> take 4 (drop 22 icoPayload) = [0x89, 0x50, 0x4E, 0x47]
   \<and> staticBlob icoPayload = \<lparr>blob_bytes = icoPayload, blob_type = ''image/png''\<rparr>
   \<and> blob_bytes (staticBlob icoPayload) \<noteq> drop 22 icoPayload
   \<and> take 4 curPayloadStray = [0, 0, 2, 0]
   \<and> take 4 (drop 22 curPayloadStray) = [0x89, 0x50, 0x4E, 0x47]
   \<and> take 4 (drop 14 curPayloadStray) \<noteq> [0x89, 0x50, 0x4E, 0x47]
   \<and> staticBlob curPayloadStray =
        \<lparr>blob_bytes = drop 14 curPayloadStray, blob_type = ''image/png''\<rparr>
   \<and> blob_bytes (staticBlob curPayloadStray) \<noteq> drop 22 curPayloadStray"
proof -
  have i: "\<not> isCurDirectory icoPayload"
    by (simp add: isCurDirectory_iff icoPayload_def)
  have c: "isCurDirectory curPayloadStray"
    by (simp add: isCurDirectory_iff curPayloadStray_def)
  have f: "findPngStart curPayloadStray = Some 14"
    by code_simp
  have s1: "staticBlob icoPayload = \<lparr>blob_bytes = icoPayload, blob_type = ''image/png''\<rparr>"
    using i by (simp add: staticBlob_def)
  have s2: "staticBlob curPayloadStray =
        \<lparr>blob_bytes = drop 14 curPayloadStray, blob_type = ''image/png''\<rparr>"
    using c f by (simp add: staticBlob_def)
  have r: "take 4 icoPayload = [0, 0, 1, 0]
     \<and> take 4 (drop 22 icoPayload) = [0x89, 0x50, 0x4E, 0x47]
     \<and> icoPayload \<noteq> drop 22 icoPayload
     \<and> take 4 curPayloadStray = [0, 0, 2, 0]
     \<and> take 4 (drop 22 curPayloadStray) = [0x89, 0x50, 0x4E, 0x47]
     \<and> take 4 (drop 14 curPayloadStray) \<noteq> [0x89, 0x50, 0x4E, 0x47]
     \<and> drop 14 curPayloadStray \<noteq> drop 22 curPayloadStray"
    by (simp add: icoPayload_def curPayloadStray_def pngStub_def pngSig_def)
  from r show ?thesis unfolding s1 s2 by simp
qed

text \<open>
  C8, amended. A payload is treated as directory-wrapped exactly when its first four
  bytes are 00 00 02 00, the cursor type only. For such a payload whose first byte pair
  89 50 begins the PNG signature 89 50 4E 47 and lies more than 8 bytes before the end,
  the bytes from that offset onward are decoded as PNG. Every payload without the
  directory signature is decoded whole, as PNG.
\<close>

theorem staticBlob_cursor_directory:
  "(isCurDirectory bytes \<longleftrightarrow> 4 \<le> length bytes \<and> take 4 bytes = [0, 0, 2, 0])
   \<and> (\<not> isCurDirectory bytes \<longrightarrow>
         staticBlob bytes = \<lparr>blob_bytes = bytes, blob_type = ''image/png''\<rparr>)
   \<and> (\<forall>i. isCurDirectory bytes \<and> i + 8 < length bytes
           \<and> take 4 (drop i bytes) = [0x89, 0x50, 0x4E, 0x47]
           \<and> (\<forall>j<i. \<not> (bytes ! j = 0x89 \<and> bytes ! (j + 1) = 0x50)) \<longrightarrow>
         staticBlob bytes = \<lparr>blob_bytes = drop i bytes, blob_type = ''image/png''\<rparr>)"
proof -
  have a: "staticBlob bytes = \<lparr>blob_bytes = drop i bytes, blob_type = ''image/png''\<rparr>"
    if h: "isCurDirectory bytes \<and> i + 8 < length bytes
           \<and> take 4 (drop i bytes) = [0x89, 0x50, 0x4E, 0x47]
           \<and> (\<forall>j<i. \<not> (bytes ! j = 0x89 \<and> bytes ! (j + 1) = 0x50))" for i
  proof -
    from h have t: "take 4 (drop i bytes) = [0x89, 0x50, 0x4E, 0x47]" by simp
    from h have l: "i + 8 < length bytes" by simp
    have "take 4 (drop i bytes) ! 0 = bytes ! i" using l by simp
    then have b0: "bytes ! i = 0x89" unfolding t by simp
    have "take 4 (drop i bytes) ! 1 = bytes ! (i + 1)" using l by simp
    then have b1: "bytes ! (i + 1) = 0x50" unfolding t by simp
    from h have "findPngStart bytes = Some i"
      by (intro findPngStart_first[OF l b0 b1]) simp
    with h show ?thesis by (simp add: staticBlob_def)
  qed
  have b: "\<not> isCurDirectory bytes \<longrightarrow>
         staticBlob bytes = \<lparr>blob_bytes = bytes, blob_type = ''image/png''\<rparr>"
    by (simp add: staticBlob_def)
  from a b isCurDirectory_iff[of bytes] show ?thesis by blast
qed

theorem staticBlob_cursor_directory_witness:
  "isCurDirectory curPayload \<and> (22::nat) + 8 < length curPayload
   \<and> take 4 (drop 22 curPayload) = [0x89, 0x50, 0x4E, 0x47]
   \<and> list_all (\<lambda>j. \<not> (curPayload ! j = 0x89 \<and> curPayload ! (j + 1) = 0x50)) [0..<22]
   \<and> staticBlob curPayload = \<lparr>blob_bytes = pngStub, blob_type = ''image/png''\<rparr>
   \<and> \<not> isCurDirectory pngStub
   \<and> staticBlob pngStub = \<lparr>blob_bytes = pngStub, blob_type = ''image/png''\<rparr>"
proof -
  have c: "isCurDirectory curPayload"
    by (simp add: isCurDirectory_iff curPayload_def)
  have l: "(22::nat) + 8 < length curPayload"
    by (simp add: curPayload_def pngStub_def pngSig_def)
  have t: "take 4 (drop 22 curPayload) = [0x89, 0x50, 0x4E, 0x47]"
    by (simp add: curPayload_def pngStub_def pngSig_def)
  have n': "list_all (\<lambda>j. \<not> (curPayload ! j = 0x89 \<and> curPayload ! (j + 1) = 0x50)) [0..<22]"
    by code_simp
  then have n: "\<forall>j<22. \<not> (curPayload ! j = 0x89 \<and> curPayload ! (j + 1) = 0x50)"
    by (simp add: list_all_iff)
  have d: "drop 22 curPayload = pngStub" by (simp add: curPayload_def)
  have p: "\<not> isCurDirectory pngStub"
    by (simp add: isCurDirectory_iff pngStub_def pngSig_def)
  from staticBlob_cursor_directory[of curPayload, THEN conjunct2, THEN conjunct2, rule_format,
      of 22] c l t n
  have s: "staticBlob curPayload = \<lparr>blob_bytes = pngStub, blob_type = ''image/png''\<rparr>"
    unfolding d by blast
  from staticBlob_cursor_directory[of pngStub, THEN conjunct2, THEN conjunct1] p
  have q: "staticBlob pngStub = \<lparr>blob_bytes = pngStub, blob_type = ''image/png''\<rparr>"
    by blast
  from c l t n' s p q show ?thesis by blast
qed

section \<open>Termination of the chunk walk\<close>

lemma getUint32_nonneg: "getUint32 buf off = Inr v \<Longrightarrow> 0 \<le> v"
  by (auto simp: getUint32_def split: if_splits)

lemma framStep_advance:
  assumes "framStep bytes s = Inr s'"
  shows "fst s + 8 \<le> fst s'"
proof -
  obtain ip icons where s: "s = (ip, icons)" by (cases s)
  from assms s obtain isz where g: "getUint32 bytes (ip + 4) = Inr isz"
    and s': "fst s' = ip + 8 + isz + isz mod 2"
    by (auto simp: framStep_def Let_def split: sum.splits)
  have "0 \<le> isz" using getUint32_nonneg[OF g] .
  moreover have "0 \<le> isz mod 2" by simp
  ultimately show ?thesis using s s' by simp
qed

lemma framLoop_returns: "\<exists>r. framLoop bytes endp s = Some r"
proof (induction "nat (endp - 8 - fst s)" arbitrary: s rule: less_induct)
  case less
  show ?case
  proof (cases "fst s < endp - 8")
    case False
    then show ?thesis by (subst framLoop.simps) simp
  next
    case True
    show ?thesis
    proof (cases "framStep bytes s")
      case (Inl e)
      with True show ?thesis by (subst framLoop.simps) simp
    next
      case (Inr s')
      from framStep_advance[OF Inr] True
      have "nat (endp - 8 - fst s') < nat (endp - 8 - fst s)" by linarith
      from less[OF this] obtain r where "framLoop bytes endp s' = Some r" by blast
      with True Inr show ?thesis by (subst framLoop.simps) simp
    qed
  qed
qed

lemma chunkBody_returns: "\<exists>r. chunkBody bytes cid sz pos w = Some r"
proof -
  obtain r where "framLoop bytes (pos + sz) (pos + 4, w_iconChunks w) = Some r"
    using framLoop_returns by blast
  then show ?thesis
    by (cases r) (auto simp: chunkBody_def split: sum.splits)
qed

lemma topStep_returns: "\<exists>r. topStep bytes w = Some r"
proof (cases "getUint32 bytes (w_pos w + 4)")
  case (Inl e)
  then show ?thesis by (simp add: topStep_def)
next
  case (Inr sz)
  obtain r where
    "chunkBody bytes (slice bytes (w_pos w) (w_pos w + 4)) sz (w_pos w + 8) w = Some r"
    using chunkBody_returns by blast
  with Inr show ?thesis by (cases r) (simp_all add: topStep_def Let_def)
qed

lemma topStep_advance:
  assumes "topStep bytes w = Some (Inr w')"
  shows "w_pos w + 8 \<le> w_pos w'"
proof -
  from assms obtain sz where g: "getUint32 bytes (w_pos w + 4) = Inr sz"
    and p: "w_pos w' = w_pos w + 8 + sz + sz mod 2"
    by (auto simp: topStep_def Let_def split: sum.splits option.splits)
  have "0 \<le> sz" using getUint32_nonneg[OF g] .
  moreover have "0 \<le> sz mod 2" by simp
  ultimately show ?thesis using p by simp
qed

lemma walkLoop_returns: "\<exists>r. walkLoop bytes w = Some r"
proof (induction "nat (int (length bytes) - 8 - w_pos w)" arbitrary: w rule: less_induct)
  case less
  show ?case
  proof (cases "w_pos w < int (length bytes) - 8")
    case False
    then show ?thesis by (subst walkLoop.simps) simp
  next
    case True
    obtain r where r: "topStep bytes w = Some r" using topStep_returns by blast
    show ?thesis
    proof (cases r)
      case (Inl e)
      with True r show ?thesis by (subst walkLoop.simps) simp
    next
      case (Inr w')
      with r have t: "topStep bytes w = Some (Inr w')" by simp
      from topStep_advance[OF t] True
      have "nat (int (length bytes) - 8 - w_pos w') < nat (int (length bytes) - 8 - w_pos w)"
        by linarith
      from less[OF this] obtain q where "walkLoop bytes w' = Some q" by blast
      with True t show ?thesis by (subst walkLoop.simps) simp
    qed
  qed
qed

text \<open>
  C10. The chunk walk of \<open>parseAniFile\<close> returns for every byte array, with the
  collected chunks or with an error (a bad magic number, or the \<open>RangeError\<close> of a read
  past the buffer). Every iteration of the top-level loop that does not raise moves \<open>pos\<close>
  forward by at least 8 bytes, and so does every iteration of the sub-chunk loop of a
  \<open>fram\<close> list with \<open>ip\<close>, whatever the declared sizes are.
\<close>

theorem aniChunkWalk_terminates:
  "(\<exists>r. aniChunkWalk bytes = Some r)
   \<and> (\<forall>w. \<exists>r. walkLoop bytes w = Some r)
   \<and> (\<forall>endp s. \<exists>r. framLoop bytes endp s = Some r)
   \<and> (\<forall>w. \<exists>r. topStep bytes w = Some r)
   \<and> (\<forall>w w'. topStep bytes w = Some (Inr w') \<longrightarrow> w_pos w + 8 \<le> w_pos w')
   \<and> (\<forall>s s'. framStep bytes s = Inr s' \<longrightarrow> fst s + 8 \<le> fst s')"
proof -
  have "\<exists>r. aniChunkWalk bytes = Some r"
    using walkLoop_returns[of bytes initialWalk] by (simp add: aniChunkWalk_def)
  then show ?thesis
    using walkLoop_returns framLoop_returns topStep_returns topStep_advance framStep_advance
    by blast
qed

theorem aniChunkWalk_terminates_witness:
  "aniChunkWalk aniOversized =
     Some (Inr \<lparr>w_pos = 528, w_defaultRate = 60, w_rates = [],
                w_iconChunks = [[1, 2, 3, 4, 5, 6, 7, 8, 9]]\<rparr>)
   \<and> aniChunkWalk aniTruncated = Some (Inl RangeError)
   \<and> topStep aniOversized initialWalk = Some (Inr (initialWalk\<lparr>w_pos := 20\<rparr>))
   \<and> w_pos initialWalk + 8 \<le> w_pos (initialWalk\<lparr>w_pos := 20\<rparr>)
   \<and> framStep aniOversized (32, []) = Inr (540, [[1, 2, 3, 4, 5, 6, 7, 8, 9]])
   \<and> fst (32 :: int, [] :: byte list list) + 8
        \<le> fst (540 :: int, [[1, 2, 3, 4, 5, 6, 7, 8, 9]] :: byte list list)"
proof -
  have t: "topStep aniOversized initialWalk = Some (Inr (initialWalk\<lparr>w_pos := 20\<rparr>))"
    by code_simp
  have f: "framStep aniOversized (32, []) = Inr (540, [[1, 2, 3, 4, 5, 6, 7, 8, 9]])"
    by code_simp
  have w: "aniChunkWalk aniOversized =
     Some (Inr \<lparr>w_pos = 528, w_defaultRate = 60, w_rates = [],
                w_iconChunks = [[1, 2, 3, 4, 5, 6, 7, 8, 9]]\<rparr>)"
    by code_simp
  have r: "aniChunkWalk aniTruncated = Some (Inl RangeError)"
    by code_simp
  note c = aniChunkWalk_terminates[of aniOversized]
  have a1: "\<forall>w w'. topStep aniOversized w = Some (Inr w') \<longrightarrow> w_pos w + 8 \<le> w_pos w'"
    using c by (elim conjE) assumption
  have a2: "\<forall>s s'. framStep aniOversized s = Inr s' \<longrightarrow> fst s + 8 \<le> fst s'"
    using c by (elim conjE) assumption
  from a1[rule_format, OF t] a2[rule_format, OF f] t f w r show ?thesis by blast
qed

section \<open>Rates and delays\<close>

lemma frameDelay_6_6_12:
  "frameDelay [6, 6, 12] 60 0 = 100" "frameDelay [6, 6, 12] 60 1 = 100"
  "frameDelay [6, 6, 12] 60 2 = 200"
proof -
  have six: "fl (6 * (4691249611844267 / 2 ^ 48)) = 100"
    by (subst fl_eval[where k = 6 and e = "- 46"]) (simp_all add: rne_def power_int_minus)
  have twelve: "fl (12 * (4691249611844267 / 2 ^ 48)) = 200"
    by (subst fl_eval[where k = 7 and e = "- 45"]) (simp_all add: rne_def power_int_minus)
  show "frameDelay [6, 6, 12] 60 0 = 100"
    unfolding frameDelay_def fl_1000_60 using six by simp
  show "frameDelay [6, 6, 12] 60 1 = 100"
    unfolding frameDelay_def fl_1000_60 using six by simp
  show "frameDelay [6, 6, 12] 60 2 = 200"
    unfolding frameDelay_def fl_1000_60 using twelve by simp
qed

text \<open>
  C5. A file written by \<open>download\<close> with the rates 6, 6, 12 is read back by
  \<open>parseAniFile\<close> with these rates and the three frame blobs; the frame delays are the
  binary64 products rate * (1000 / 60), which are exactly 100, 100 and 200 ms, and the
  export's \<open>Math.max(1, Math.round(d / 16.666))\<close> turns them into 6, 6, 12 again.
\<close>

theorem ani_rate_round_trip:
  "aniChunkWalk (aniFileBytes frames_6_6_12) =
     Some (Inr \<lparr>w_pos = 232, w_defaultRate = 60, w_rates = [6, 6, 12],
                w_iconChunks = blobs frames_6_6_12\<rparr>)
   \<and> (\<exists>fs. parseAniFile anyImage (aniFileBytes frames_6_6_12) = Some (Inr fs)
          \<and> map delay fs = [6 * (1000 / 60), 6 * (1000 / 60), 12 * (1000 / 60)]
          \<and> map delay fs = [100, 100, 200]
          \<and> list_all2 (\<lambda>d e. \<bar>d - e\<bar> \<le> 1) (map delay fs) [100, 100, 200]
          \<and> map (\<lambda>f. rateOf (delay f)) fs = [6, 6, 12])
   \<and> map rateOf [100, 100, 200] = [6, 6, 12]
   \<and> map (\<lambda>d. max 1 (round (d / (1000 / 60)))) [100, 100, 200 :: real] = [6, 6, 12]"
proof -
  have w: "aniChunkWalk (aniFileBytes frames_6_6_12) =
     Some (Inr \<lparr>w_pos = 232, w_defaultRate = 60, w_rates = [6, 6, 12],
                w_iconChunks = blobs frames_6_6_12\<rparr>)"
    by code_simp
  obtain b1 b2 b3 where b: "blobs frames_6_6_12 = [b1, b2, b3]"
    by (simp add: frames_6_6_12_def)
  have l: "loadFrames anyImage [6, 6, 12] 60 0 [b1, b2, b3] =
      Some [\<lparr>image = the (anyImage (iconBlob b1)), delay = frameDelay [6, 6, 12] 60 0\<rparr>,
            \<lparr>image = the (anyImage (iconBlob b2)), delay = frameDelay [6, 6, 12] 60 1\<rparr>,
            \<lparr>image = the (anyImage (iconBlob b3)), delay = frameDelay [6, 6, 12] 60 2\<rparr>]"
    by (simp add: anyImage_def eval_nat_numeral)
  note d = frameDelay_6_6_12
  have r: "rateOf 100 = 6" "rateOf 200 = 12" by (rule rateOf_values)+
  have p: "parseAniFile anyImage (aniFileBytes frames_6_6_12) =
      Some (Inr [\<lparr>image = the (anyImage (iconBlob b1)), delay = 100\<rparr>,
                 \<lparr>image = the (anyImage (iconBlob b2)), delay = 100\<rparr>,
                 \<lparr>image = the (anyImage (iconBlob b3)), delay = 200\<rparr>])"
    unfolding parseAniFile_def w using d by (simp add: b l del: loadFrames.simps)
  have q: "map (\<lambda>d. max 1 (round (d / (1000 / 60)))) [100, 100, 200 :: real] = [6, 6, 12]"
    by (simp add: round_def)
  from w r q show ?thesis unfolding p by simp
qed

section \<open>Removing the base layer\<close>

text \<open>
  C9 (the code departs from the claim). \<open>removeLayer\<close> filters by id and never looks
  at the role: on the initial stack, which holds only the Base layer, removing the id
  \<open>base\<close> leaves an empty stack, on which an export raises a \<open>TypeError\<close>.
\<close>

theorem removeLayer_drops_base_layer:
  "map hasBaseRole (layers (activeData initialEditor)) = [True]
   \<and> map layer_id (layers (activeData initialEditor)) = [''base'']
   \<and> layers (activeData (removeLayer ''base'' initialEditor)) = []
   \<and> layers (activeData (removeLayer ''base'' initialEditor))
        \<noteq> layers (activeData initialEditor)
   \<and> generateExportBlob goodEnv CUR (activeData (removeLayer ''base'' initialEditor))
        = Inl TypeError"
proof -
  have e: "layers (activeData (removeLayer ''base'' initialEditor)) = []"
    by (simp add: removeLayer_def initialEditor_def DEFAULT_CURSOR_STATE_def
        createBaseLayer_def)
  have c: "hasContext goodEnv" by (simp add: goodEnv_def)
  have i: "map hasBaseRole (layers (activeData initialEditor)) = [True]
     \<and> map layer_id (layers (activeData initialEditor)) = [''base'']"
    by (simp add: initialEditor_def DEFAULT_CURSOR_STATE_def createBaseLayer_def
        hasBaseRole_def)
  have n: "layers (activeData initialEditor) \<noteq> []"
    by (simp add: initialEditor_def DEFAULT_CURSOR_STATE_def)
  from generateExportBlob_empty_stack[OF c e, of CUR] e i n show ?thesis by simp
qed

end
